theory Spec2Isabelle
  imports Complex_Main "HOL-Library.AList"
begin

section \<open>Conventions of the embedding\<close>

text \<open>
  The three managers of the server (ChatManager, UserManager, MatchingEngine) are
  JavaScript classes whose methods mutate the fields of \<open>this\<close>. Each class becomes
  a record of its fields and each method a function that takes the record and returns
  the method's result together with the updated record.

  \<^item> \<open>Date.now()\<close> and \<open>new Date()\<close> are an argument \<open>now\<close> (milliseconds, an
    integer); all clock reads of one call see the same instant.
  \<^item> \<open>uuidv4()\<close> is an argument: the identifier the call drew.
  \<^item> JavaScript numbers that hold counts and millisecond values are \<open>nat\<close> or \<open>int\<close>.
    The trust score, whose value decides a ban, is computed in the doubles of the
    source (section Doubles). The other scores and ratios (engagement, priority,
    compatibility) are \<open>real\<close>: exact arithmetic stands for their doubles, and where
    the source divides by zero the result of the double arithmetic is written out.
  \<^item> A JavaScript \<open>Map\<close> is an association list in insertion order: \<open>set\<close> replaces
    the value of a present key in place and appends an absent one, as the source's
    \<open>Map\<close> does.
  \<^item> \<open>setTimeout\<close> handles are not part of the state; the callback a timer would run
    is an operation of its own that may happen at any step.
  \<^item> A \<open>throw\<close> is the left injection of a sum type.
\<close>

datatype error = TypeError | QueueFull

type_synonym ('k, 'v) jsmap = "('k \<times> 'v) list"

definition map_get :: "('k, 'v) jsmap \<Rightarrow> 'k \<Rightarrow> 'v option" where
  "map_get m k = map_of m k"

definition map_has :: "('k, 'v) jsmap \<Rightarrow> 'k \<Rightarrow> bool" where
  "map_has m k = (map_of m k \<noteq> None)"

definition map_set :: "('k, 'v) jsmap \<Rightarrow> 'k \<Rightarrow> 'v \<Rightarrow> ('k, 'v) jsmap" where
  "map_set m k v = AList.update k v m"

definition map_delete :: "('k, 'v) jsmap \<Rightarrow> 'k \<Rightarrow> ('k, 'v) jsmap" where
  "map_delete m k = AList.delete k m"

text \<open>
  Values that arrive from a client are decoded JSON: any of the shapes below. Numbers
  are the integers a double holds exactly (magnitude up to \<open>2^53\<close>), which print as
  their decimal digits.
\<close>

datatype jsval =
    JUndefined
  | JNull
  | JBool bool
  | JNum int
  | JStr string
  | JArr "jsval list"
  | JObj "(string \<times> jsval) list"

text \<open>Truthiness, as \<open>if (v)\<close>, \<open>v || d\<close> and \<open>!v\<close> see it.\<close>

fun truthy :: "jsval \<Rightarrow> bool" where
  "truthy JUndefined = False"
| "truthy JNull = False"
| "truthy (JBool b) = b"
| "truthy (JNum n) = (n \<noteq> 0)"
| "truthy (JStr s) = (s \<noteq> [])"
| "truthy (JArr xs) = True"
| "truthy (JObj kvs) = True"

text \<open>\<open>a.slice(-n)\<close>: the last \<open>n\<close> elements; \<open>slice(-0)\<close> is \<open>slice(0)\<close>, the whole array.\<close>

definition slice_last :: "nat \<Rightarrow> 'a list \<Rightarrow> 'a list" where
  "slice_last n xs = (if n = 0 then xs else drop (length xs - n) xs)"

section \<open>ChatManager\<close>

datatype chat_status = Active | Ended

text \<open>The message object handed to \<open>addMessage\<close> by the socket handler.\<close>

record message_in =
  in_id :: string
  in_senderId :: string
  in_message :: string
  in_type :: string

text \<open>The message as stored: the fields of the argument, then the fields \<open>addMessage\<close> sets.\<close>

record message =
  msg_id :: string
  msg_senderId :: string
  msg_message :: string
  msg_type :: string
  msg_timestamp :: int
  msg_chatId :: string
  sequence :: nat
  edited :: bool
  editHistory :: "string list"

record quality_issue =
  qi_type :: jsval
  qi_timestamp :: int
  qi_details :: jsval

record report =
  rep_id :: string
  reporterId :: string
  issueType :: string
  description :: string
  rep_timestamp :: int
  rep_status :: string

record chat_metadata =
  messageCount :: nat
  duration :: int
  endedBy :: "string option"
  endReason :: "string option"
  webrtcEnabled :: bool
  qualityIssues :: "quality_issue list"
  webrtcConnected :: "bool option"
  webrtcConnectedAt :: "int option"

record chat_settings =
  maxMessages :: nat
  allowWebRTC :: bool
  contentFilterEnabled :: bool
  recordingEnabled :: bool

record chat_analytics =
  responseTime :: "int list"
  activeTime :: int
  silentPeriods :: nat
  lastMessageTime :: int
  lastTypingTime :: "int option"
  webrtcDuration :: "int option"
  averageResponseTime :: "real option"
  engagementScore :: "real option"

record chat =
  chat_id :: string
  chat_type :: string
  participants :: "string list"
  createdAt :: int
  lastActivity :: int
  status :: chat_status
  messages :: "message list"
  metadata :: chat_metadata
  settings :: chat_settings
  analytics :: chat_analytics
  endedAt :: "int option"
  reports :: "report list option"

record history_entry =
  h_id :: string
  h_type :: string
  h_createdAt :: int
  h_endedAt :: "int option"
  h_duration :: int
  h_messageCount :: nat
  h_endReason :: "string option"
  h_engagementScore :: real
  h_qualityIssues :: nat
  h_webrtcDuration :: int

record chat_manager =
  chats :: "(string, chat) jsmap"
  userChats :: "(string, string) jsmap"
  chatHistory :: "history_entry list"
  maxHistorySize :: nat
  maxChatDuration :: int
  maxMessagesPerChat :: nat
  totalChats :: nat
  totalMessages :: nat
  averageChatDuration :: real

text \<open>The constructor.\<close>

definition chat_manager_init :: chat_manager where
  "chat_manager_init =
     \<lparr> chats = [], userChats = [], chatHistory = [], maxHistorySize = 10000,
       maxChatDuration = 60 * 60 * 1000, maxMessagesPerChat = 1000,
       totalChats = 0, totalMessages = 0, averageChatDuration = 0 \<rparr>"

text \<open>\<open>createChat(user1Id, user2Id, chatType = 'text')\<close>; \<open>None\<close> is the omitted argument.\<close>

definition createChat ::
  "chat_manager \<Rightarrow> string \<Rightarrow> string \<Rightarrow> string option \<Rightarrow> string \<Rightarrow> int \<Rightarrow> chat \<times> chat_manager" where
  "createChat s user1Id user2Id chatType chatId now =
     (let ty = (case chatType of None \<Rightarrow> ''text'' | Some t \<Rightarrow> t);
          chat = \<lparr> chat_id = chatId, chat_type = ty, participants = [user1Id, user2Id],
                   createdAt = now, lastActivity = now, status = Active, messages = [],
                   metadata = \<lparr> messageCount = 0, duration = 0, endedBy = None,
                                endReason = None, webrtcEnabled = (ty = ''video''),
                                qualityIssues = [], webrtcConnected = None,
                                webrtcConnectedAt = None \<rparr>,
                   settings = \<lparr> maxMessages = maxMessagesPerChat s,
                                allowWebRTC = (ty = ''video''),
                                contentFilterEnabled = True, recordingEnabled = False \<rparr>,
                   analytics = \<lparr> responseTime = [], activeTime = 0, silentPeriods = 0,
                                 lastMessageTime = now, lastTypingTime = None,
                                 webrtcDuration = None, averageResponseTime = None,
                                 engagementScore = None \<rparr>,
                   endedAt = None, reports = None \<rparr>
      in (chat, s\<lparr> chats := map_set (chats s) chatId chat,
                  userChats := map_set (map_set (userChats s) user1Id chatId) user2Id chatId,
                  totalChats := totalChats s + 1 \<rparr>))"

definition getChat :: "chat_manager \<Rightarrow> string \<Rightarrow> chat option" where
  "getChat s chatId = map_get (chats s) chatId"

definition getUserCurrentChat :: "chat_manager \<Rightarrow> string \<Rightarrow> chat option" where
  "getUserCurrentChat s userId =
     (case map_get (userChats s) userId of
        None \<Rightarrow> None
      | Some chatId \<Rightarrow> if chatId = [] then None else map_get (chats s) chatId)"

definition updateChatAnalytics :: "chat \<Rightarrow> message \<Rightarrow> int \<Rightarrow> chat" where
  "updateChatAnalytics chat message now =
     (let a = analytics chat;
          lastMessageTime = lastMessageTime a;
          rt = (if length (messages chat) > 1
                then (let r = responseTime a @ [now - lastMessageTime]
                      in if length r > 50 then slice_last 50 r else r)
                else responseTime a);
          timeSinceLastMessage = now - lastMessageTime;
          a1 = a\<lparr> responseTime := rt \<rparr>;
          a2 = (if timeSinceLastMessage < 60000
                then a1\<lparr> activeTime := activeTime a1 + timeSinceLastMessage \<rparr>
                else a1\<lparr> silentPeriods := silentPeriods a1 + 1 \<rparr>)
      in chat\<lparr> analytics := a2\<lparr> lastMessageTime := now \<rparr> \<rparr>)"

text \<open>
  \<open>calculateEngagementScore\<close>. With \<open>duration = 0\<close> the source computes
  \<open>messageCount / 0 = Infinity\<close> (the count is positive there), and
  \<open>Math.min(Infinity * 10, 50)\<close> is 50.
\<close>

definition calculateEngagementScore :: "chat \<Rightarrow> real" where
  "calculateEngagementScore chat =
     (if length (messages chat) = 0 then 0
      else
        let duration = real_of_int (duration (metadata chat));
            messageCount = real (length (messages chat));
            activeTime = real_of_int (activeTime (analytics chat));
            silentPeriods = real (silentPeriods (analytics chat));
            score0 = (if duration = 0 then 50
                      else min ((messageCount / (duration / 60000)) * 10) 50);
            score1 = (if duration > 0 then score0 + (activeTime / duration) * 30 else score0);
            score2 = score1 - min (silentPeriods * 5) 20
        in max 0 (min 100 score2))"

definition calculateFinalAnalytics :: "chat \<Rightarrow> chat" where
  "calculateFinalAnalytics chat =
     (if length (messages chat) > 0
      then
        let rt = responseTime (analytics chat);
            chat1 = (if length rt > 0
                     then chat\<lparr> analytics := (analytics chat)
                            \<lparr> averageResponseTime :=
                                Some (real_of_int (foldl (+) 0 rt) / real (length rt)) \<rparr> \<rparr>
                     else chat)
        in chat1\<lparr> analytics := (analytics chat1)
                   \<lparr> engagementScore := Some (calculateEngagementScore chat1) \<rparr> \<rparr>
      else chat)"

definition addToHistory :: "chat_manager \<Rightarrow> chat \<Rightarrow> chat_manager" where
  "addToHistory s chat =
     (let historyEntry =
            \<lparr> h_id = chat_id chat, h_type = chat_type chat, h_createdAt = createdAt chat,
              h_endedAt = endedAt chat, h_duration = duration (metadata chat),
              h_messageCount = messageCount (metadata chat),
              h_endReason = endReason (metadata chat),
              h_engagementScore =
                (case engagementScore (analytics chat) of None \<Rightarrow> 0 | Some e \<Rightarrow> e),
              h_qualityIssues = length (qualityIssues (metadata chat)),
              h_webrtcDuration =
                (case webrtcDuration (analytics chat) of None \<Rightarrow> 0 | Some d \<Rightarrow> d) \<rparr>;
          h = chatHistory s @ [historyEntry]
      in s\<lparr> chatHistory :=
              (if length h > maxHistorySize s then slice_last (maxHistorySize s) h else h) \<rparr>)"

text \<open>\<open>endChat(chatId, reason = 'user_action', endedBy = null)\<close>.\<close>

definition endChat ::
  "chat_manager \<Rightarrow> string \<Rightarrow> string \<Rightarrow> string option \<Rightarrow> int \<Rightarrow> bool \<times> chat_manager" where
  "endChat s chatId reason by now =
     (case map_get (chats s) chatId of
        None \<Rightarrow> (False, s)
      | Some chat \<Rightarrow>
          let chat1 = chat\<lparr> status := Ended,
                            metadata := (metadata chat)
                              \<lparr> endReason := Some reason, endedBy := by,
                                duration := now - createdAt chat \<rparr>,
                            endedAt := Some now \<rparr>;
              chat2 = calculateFinalAnalytics chat1;
              s1 = s\<lparr> userChats := foldl map_delete (userChats s) (participants chat2) \<rparr>;
              s2 = addToHistory s1 chat2
          in (True, s2\<lparr> chats := map_delete (chats s2) chatId \<rparr>))"

definition addMessage ::
  "chat_manager \<Rightarrow> string \<Rightarrow> message_in \<Rightarrow> string \<Rightarrow> int \<Rightarrow> bool \<times> chat_manager" where
  "addMessage s chatId message uuid now =
     (case map_get (chats s) chatId of
        None \<Rightarrow> (False, s)
      | Some chat \<Rightarrow>
          if status chat \<noteq> Active then (False, s)
          else if length (messages chat) \<ge> maxMessages (settings chat)
          then (False, snd (endChat s chatId ''message_limit_reached'' None now))
          else
            let enhancedMessage =
                  \<lparr> msg_id = (if in_id message = [] then uuid else in_id message),
                    msg_senderId = in_senderId message,
                    msg_message = in_message message,
                    msg_type = in_type message,
                    msg_timestamp = now,
                    msg_chatId = chatId,
                    sequence = length (messages chat) + 1,
                    edited = False,
                    editHistory = [] \<rparr>;
                chat1 = chat\<lparr> messages := messages chat @ [enhancedMessage],
                              metadata := (metadata chat)
                                \<lparr> messageCount := messageCount (metadata chat) + 1 \<rparr>,
                              lastActivity := now \<rparr>;
                chat2 = updateChatAnalytics chat1 enhancedMessage now
            in (True, s\<lparr> chats := map_set (chats s) chatId chat2,
                         totalMessages := totalMessages s + 1 \<rparr>))"

text \<open>
  \<open>updateActivity(chatId, activityType, data = {})\<close> of ChatManager; \<open>data\<close> is an
  object, of which the method reads \<open>type\<close> and \<open>details\<close>.
\<close>

definition updateActivity_chat ::
  "chat_manager \<Rightarrow> string \<Rightarrow> string \<Rightarrow> jsval \<Rightarrow> jsval \<Rightarrow> int \<Rightarrow> chat_manager" where
  "updateActivity_chat s chatId activityType data_type data_details now =
     (case map_get (chats s) chatId of
        None \<Rightarrow> s
      | Some chat \<Rightarrow>
          let chat1 = chat\<lparr> lastActivity := now \<rparr>;
              chat2 =
                (if activityType = ''typing''
                 then chat1\<lparr> analytics := (analytics chat1)\<lparr> lastTypingTime := Some now \<rparr> \<rparr>
                 else if activityType = ''webrtc_connected''
                 then chat1\<lparr> metadata := (metadata chat1)
                               \<lparr> webrtcConnected := Some True, webrtcConnectedAt := Some now \<rparr> \<rparr>
                 else if activityType = ''webrtc_disconnected''
                 then (let m = (metadata chat1)\<lparr> webrtcConnected := Some False \<rparr>;
                           chat3 = chat1\<lparr> metadata := m \<rparr>
                       in case webrtcConnectedAt m of
                            None \<Rightarrow> chat3
                          | Some t \<Rightarrow>
                              chat3\<lparr> analytics := (analytics chat3)
                                \<lparr> webrtcDuration :=
                                    Some ((case webrtcDuration (analytics chat3) of
                                             None \<Rightarrow> 0 | Some d \<Rightarrow> d) + (now - t)) \<rparr> \<rparr>)
                 else if activityType = ''quality_issue''
                 then chat1\<lparr> metadata := (metadata chat1)
                               \<lparr> qualityIssues := qualityIssues (metadata chat1) @
                                   [\<lparr> qi_type = data_type, qi_timestamp = now,
                                      qi_details = data_details \<rparr>] \<rparr> \<rparr>
                 else chat1)
          in s\<lparr> chats := map_set (chats s) chatId chat2 \<rparr>)"

definition reportIssue ::
  "chat_manager \<Rightarrow> string \<Rightarrow> string \<Rightarrow> string \<Rightarrow> string \<Rightarrow> string \<Rightarrow> int
     \<Rightarrow> bool \<times> chat_manager" where
  "reportIssue s chatId reporter issue descr uuid now =
     (case map_get (chats s) chatId of
        None \<Rightarrow> (False, s)
      | Some chat \<Rightarrow>
          let rs = (case reports chat of None \<Rightarrow> [] | Some r \<Rightarrow> r);
              chat1 = chat\<lparr> reports := Some (rs @
                        [\<lparr> rep_id = uuid, reporterId = reporter, issueType = issue,
                           description = descr, rep_timestamp = now,
                           rep_status = ''pending'' \<rparr>]) \<rparr>;
              s1 = s\<lparr> chats := map_set (chats s) chatId chat1 \<rparr>
          in if issue \<in> set [''harassment'', ''inappropriate_content'', ''spam'']
             then (True, snd (endChat s1 chatId (''reported_'' @ issue) (Some reporter) now))
             else (True, s1))"

definition cleanupInactiveChats :: "chat_manager \<Rightarrow> int \<Rightarrow> int \<Rightarrow> nat \<times> chat_manager" where
  "cleanupInactiveChats s inactivityThreshold now =
     (let inactiveChats =
            map fst (filter (\<lambda>(chatId, chat). now - lastActivity chat > inactivityThreshold)
                            (chats s))
      in (length inactiveChats,
          foldl (\<lambda>s' chatId. snd (endChat s' chatId ''inactive_timeout'' None now))
                s inactiveChats))"

text \<open>
  The operations a ChatManager can undergo. \<open>ChatTimeout\<close> is the callback that
  \<open>setChatTimeout\<close> schedules: \<open>endChat(chatId, 'timeout')\<close>.
\<close>

datatype chat_op =
    CreateChat string string "string option" string int
  | AddMessage string message_in string int
  | EndChat string string "string option" int
  | UpdateActivity string string jsval jsval int
  | ReportIssue string string string string string int
  | CleanupInactiveChats int int
  | ChatTimeout string int

fun chat_step :: "chat_manager \<Rightarrow> chat_op \<Rightarrow> chat_manager" where
  "chat_step s (CreateChat u1 u2 ty cid now) = snd (createChat s u1 u2 ty cid now)"
| "chat_step s (AddMessage cid m uuid now) = snd (addMessage s cid m uuid now)"
| "chat_step s (EndChat cid reason by now) = snd (endChat s cid reason by now)"
| "chat_step s (UpdateActivity cid ty dt dd now) = updateActivity_chat s cid ty dt dd now"
| "chat_step s (ReportIssue cid rep iss descr uuid now) =
     snd (reportIssue s cid rep iss descr uuid now)"
| "chat_step s (CleanupInactiveChats th now) = snd (cleanupInactiveChats s th now)"
| "chat_step s (ChatTimeout cid now) = snd (endChat s cid ''timeout'' None now)"

definition chat_run :: "chat_op list \<Rightarrow> chat_manager" where
  "chat_run ops = foldl chat_step chat_manager_init ops"

text \<open>
  Properties of a stored chat that every operation keeps: the sequence numbers of
  its messages count up from 1, it is active, and its message cap is the manager's.
\<close>

definition seq_ok :: "chat \<Rightarrow> bool" where
  "seq_ok c = (map sequence (messages c) = [1 ..< Suc (length (messages c))])"

definition chat_ok :: "chat \<Rightarrow> bool" where
  "chat_ok c = (seq_ok c \<and> status c = Active \<and> maxMessages (settings c) = 1000)"

definition cm_inv :: "chat_manager \<Rightarrow> bool" where
  "cm_inv s = (maxMessagesPerChat s = 1000 \<and> maxHistorySize s = 10000 \<and>
     (\<forall>cid c. map_get (chats s) cid = Some c \<longrightarrow> chat_ok c))"


text \<open>The active chats, in \<open>chats\<close>, that list a user among their participants.\<close>

definition user_rooms :: "chat_manager \<Rightarrow> string \<Rightarrow> string list" where
  "user_rooms s userId =
     map fst (filter (\<lambda>(chatId, chat). status chat = Active \<and> userId \<in> set (participants chat))
                     (chats s))"


section \<open>Doubles\<close>

text \<open>
  The trust score of a user is a JavaScript number whose value decides a ban, so its
  arithmetic is that of the source: IEEE 754 binary64. A finite double is the real it
  denotes. \<open>round_double x\<close> is the double nearest to \<open>x\<close>, ties to the even
  significand: 53 significant bits, exponents from -1022 to 1023, subnormals in steps
  of \<open>2^-1074\<close>; the values the managers compute stay far below the overflow bound
  \<open>2^1024\<close>. A decimal literal of the source denotes the double nearest to it, and
  \<open>a - b\<close> on doubles is the rounded exact difference.
\<close>

definition pow2 :: "int \<Rightarrow> real" where
  "pow2 e = (if 0 \<le> e then 2 ^ nat e else 1 / 2 ^ nat (- e))"

fun exp_up :: "real \<Rightarrow> int \<Rightarrow> nat \<Rightarrow> int" where
  "exp_up a e 0 = e"
| "exp_up a e (Suc n) = (if pow2 (e + 1) \<le> a then exp_up a (e + 1) n else e)"

fun exp_down :: "real \<Rightarrow> int \<Rightarrow> nat \<Rightarrow> int" where
  "exp_down a e 0 = e"
| "exp_down a e (Suc n) = (if a < pow2 e then exp_down a (e - 1) n else e)"

text \<open>The exponent \<open>e\<close> of a positive \<open>a\<close>: \<open>2^e \<le> a < 2^(e+1)\<close>, kept within -1022 and 1023.\<close>

definition double_exponent :: "real \<Rightarrow> int" where
  "double_exponent a = (if 1 \<le> a then exp_up a 0 1023 else exp_down a 0 1022)"

definition round_half_even :: "real \<Rightarrow> int" where
  "round_half_even q =
     (let f = \<lfloor>q\<rfloor>; d = q - real_of_int f
      in if d < 1 / 2 then f else if 1 / 2 < d then f + 1 else if even f then f else f + 1)"

definition round_double :: "real \<Rightarrow> real" where
  "round_double x =
     (if x = 0 then 0
      else let a = \<bar>x\<bar>; ulp = pow2 (double_exponent a - 52)
           in sgn x * real_of_int (round_half_even (a / ulp)) * ulp)"

definition double_sub :: "real \<Rightarrow> real \<Rightarrow> real" where
  "double_sub a b = round_double (a - b)"

section \<open>Strings and client values as the source uses them\<close>

text \<open>
  A \<open>string\<close> is a list of bytes; \<open>toLowerCase\<close>, \<open>trim\<close>, \<open>substring\<close>, \<open>split\<close>
  and \<open>includes\<close> are the source's string methods on ASCII text: letters and white
  space beyond ASCII, which the source's methods also fold and strip, are outside the
  texts modelled here.
\<close>

definition toLowerCase :: "string \<Rightarrow> string" where
  "toLowerCase s =
     map (\<lambda>c. case map_of (zip ''ABCDEFGHIJKLMNOPQRSTUVWXYZ'' ''abcdefghijklmnopqrstuvwxyz'') c of
                 None \<Rightarrow> c | Some l \<Rightarrow> l) s"

definition is_space :: "char \<Rightarrow> bool" where
  "is_space c = (c \<in> set [CHR '' '', CHR 0x09, CHR 0x0A, CHR 0x0B, CHR 0x0C, CHR 0x0D])"

definition trim :: "string \<Rightarrow> string" where
  "trim s = rev (dropWhile is_space (rev (dropWhile is_space s)))"

text \<open>\<open>s.substring(0, n)\<close>.\<close>

definition substring0 :: "nat \<Rightarrow> string \<Rightarrow> string" where
  "substring0 n s = take n s"

text \<open>\<open>s.split(',')\<close>: the empty string splits into one empty piece.\<close>

fun split_comma :: "string \<Rightarrow> string list" where
  "split_comma [] = [[]]"
| "split_comma (c # cs) =
     (if c = CHR '','' then [] # split_comma cs
      else (case split_comma cs of [] \<Rightarrow> [[c]] | p # ps \<Rightarrow> (c # p) # ps))"

text \<open>\<open>s.includes(t)\<close>.\<close>

fun includes_str :: "string \<Rightarrow> string \<Rightarrow> bool" where
  "includes_str [] t = (t = [])"
| "includes_str (c # cs) t = (take (length t) (c # cs) = t \<or> includes_str cs t)"

fun join_comma :: "string list \<Rightarrow> string" where
  "join_comma [] = []"
| "join_comma [x] = x"
| "join_comma (x # y # zs) = x @ '','' @ join_comma (y # zs)"

text \<open>The decimal text of an integer-valued number.\<close>

fun show_nat :: "nat \<Rightarrow> string" where
  "show_nat n =
     (if n < 10 then [''0123456789'' ! n]
      else show_nat (n div 10) @ [''0123456789'' ! (n mod 10)])"

definition show_int :: "int \<Rightarrow> string" where
  "show_int i = (if i < 0 then CHR ''-'' # show_nat (nat (- i)) else show_nat (nat i))"

text \<open>The first \<open>throw\<close> of a left-to-right evaluation.\<close>

fun collect :: "(error + 'a) list \<Rightarrow> error + 'a list" where
  "collect [] = Inr []"
| "collect (Inl e # rs) = Inl e"
| "collect (Inr x # rs) = (case collect rs of Inl e \<Rightarrow> Inl e | Inr xs \<Rightarrow> Inr (x # xs))"

text \<open>
  \<open>v.toString()\<close>. \<open>undefined\<close> and \<open>null\<close> have no methods; an array joins the texts
  of its elements with commas, \<open>undefined\<close> and \<open>null\<close> elements giving the empty text;
  a decoded object is \<open>[object Object]\<close> unless it carries a \<open>toString\<close> entry of its
  own, which decoded JSON cannot make callable.
\<close>

fun js_toString :: "jsval \<Rightarrow> error + string" where
  "js_toString JUndefined = Inl TypeError"
| "js_toString JNull = Inl TypeError"
| "js_toString (JBool b) = Inr (if b then ''true'' else ''false'')"
| "js_toString (JNum n) = Inr (show_int n)"
| "js_toString (JStr s) = Inr s"
| "js_toString (JArr xs) =
     (case collect (map (\<lambda>x. if x = JUndefined \<or> x = JNull then Inr [] else js_toString x) xs) of
        Inl e \<Rightarrow> Inl e
      | Inr ts \<Rightarrow> Inr (join_comma ts))"
| "js_toString (JObj kvs) =
     (if ''toString'' \<in> set (map fst kvs) then Inl TypeError else Inr ''[object Object]'')"

text \<open>
  \<open>v.name\<close> for the property names the managers read from client objects (none of
  them a built-in property of strings, numbers or arrays). The keys of an object are
  distinct.
\<close>

fun get_prop :: "jsval \<Rightarrow> string \<Rightarrow> error + jsval" where
  "get_prop JUndefined name = Inl TypeError"
| "get_prop JNull name = Inl TypeError"
| "get_prop (JObj kvs) name = Inr (case map_of kvs name of None \<Rightarrow> JUndefined | Some v \<Rightarrow> v)"
| "get_prop v name = Inr JUndefined"

text \<open>\<open>a || b\<close>.\<close>

definition js_or :: "jsval \<Rightarrow> jsval \<Rightarrow> jsval" where
  "js_or a b = (if truthy a then a else b)"

section \<open>UserManager\<close>

text \<open>
  The sanitized profile: each field is present only when the client sent a truthy
  value for it.
\<close>

record profile =
  gender :: "string option"
  location :: "string option"
  age :: "string option"
  profile_keywords :: "string list option"

record preferences =
  preferredGender :: jsval
  preferredAgeRange :: jsval
  preferredLocation :: jsval
  interests :: jsval

record session_data =
  ipAddress :: "string option"
  userAgent :: "string option"
  country :: "string option"
  city :: "string option"

record user_stats =
  st_totalChats :: int
  st_totalMessages :: int
  st_averageChatDuration :: real
  st_violations :: int

record user_flags =
  isReported :: bool
  isBanned :: bool
  isBot :: bool
  trustScore :: real

text \<open>
  The severity \<open>flagUser\<close> records is what \<open>severityMap[violationType] || 'medium'\<close>
  gives: one of the map's texts, or, for a name that every object inherits
  (\<open>constructor\<close>, \<open>toString\<close>, \<dots>), the inherited member of that name.
\<close>

datatype severity = Severity string | Inherited string

record violation =
  v_type :: string
  v_timestamp :: int
  v_details :: jsval
  v_severity :: severity

record ban_info =
  ban_reason :: string
  ban_timestamp :: int
  bannedBy :: string

record user =
  user_id :: string
  socketId :: string
  u_profile :: profile
  connectionTime :: int
  u_lastActivity :: int
  u_status :: string
  currentChatId :: "string option"
  u_preferences :: preferences
  sessionData :: session_data
  stats :: user_stats
  flags :: user_flags
  violations :: "violation list option"
  banInfo :: "ban_info option"

record public_profile =
  pp_gender :: string
  pp_location :: string
  pp_age :: string
  pp_interests :: "string list"
  pp_trustScore :: real

datatype connection_event =
    Connected string string int public_profile
  | Disconnected string string int int int int

text \<open>
  Both maps of the UserManager hold the same user objects, and every method mutates
  the object it found through one of them. The objects live in \<open>heap\<close>, at the
  references the maps store; \<open>next_ref\<close> is the next reference to allocate. A reference
  stored in a map always has its object in the heap.
\<close>

record user_manager =
  heap :: "nat \<Rightarrow> user option"
  next_ref :: nat
  users :: "(string, nat) jsmap"
  usersByUserId :: "(string, nat) jsmap"
  totalConnections :: nat
  connectionHistory :: "connection_event list"
  um_maxHistorySize :: nat
  defaultSessionTimeout :: int

definition user_manager_init :: user_manager where
  "user_manager_init =
     \<lparr> heap = (\<lambda>r. None), next_ref = 0, users = [], usersByUserId = [],
       totalConnections = 0, connectionHistory = [], um_maxHistorySize = 1000,
       defaultSessionTimeout = 30 * 60 * 1000 \<rparr>"

text \<open>\<open>m.get(key)\<close> followed by the read of the object found.\<close>

definition lookup_user :: "user_manager \<Rightarrow> (string, nat) jsmap \<Rightarrow> string \<Rightarrow> (nat \<times> user) option" where
  "lookup_user s m key =
     (case map_get m key of
        None \<Rightarrow> None
      | Some r \<Rightarrow> (case heap s r of None \<Rightarrow> None | Some u \<Rightarrow> Some (r, u)))"

definition store_user :: "user_manager \<Rightarrow> nat \<Rightarrow> user \<Rightarrow> user_manager" where
  "store_user s r u = s\<lparr> heap := (heap s)(r := Some u) \<rparr>"

definition sanitizeProfile :: "jsval \<Rightarrow> error + profile" where
  "sanitizeProfile p =
     (case get_prop p ''gender'' of
        Inl e \<Rightarrow> Inl e
      | Inr g \<Rightarrow>
     (case (if truthy g
            then (case g of
                    JStr t \<Rightarrow>
                      Inr (Some (if toLowerCase t \<in> set [''male'', ''female'', ''other'', ''not-specified'']
                                 then toLowerCase t else ''not-specified''))
                  | _ \<Rightarrow> Inl TypeError)
            else Inr None) of
        Inl e \<Rightarrow> Inl e
      | Inr sanitized_gender \<Rightarrow>
     (case get_prop p ''location'' of
        Inl e \<Rightarrow> Inl e
      | Inr l \<Rightarrow>
     (case (if truthy l
            then (case js_toString l of
                    Inl e \<Rightarrow> Inl e
                  | Inr t \<Rightarrow> Inr (Some (trim (substring0 100 t))))
            else Inr None) of
        Inl e \<Rightarrow> Inl e
      | Inr sanitized_location \<Rightarrow>
     (case get_prop p ''age'' of
        Inl e \<Rightarrow> Inl e
      | Inr a \<Rightarrow>
     (let sanitized_age =
            (if truthy a
             then Some (case a of
                          JStr t \<Rightarrow>
                            if t \<in> set [''18-25'', ''26-35'', ''36-45'', ''46+'', ''not-specified'']
                            then t else ''not-specified''
                        | _ \<Rightarrow> ''not-specified'')
             else None)
      in
     (case get_prop p ''keywords'' of
        Inl e \<Rightarrow> Inl e
      | Inr k \<Rightarrow>
     (case (if truthy k
            then (let kws = (case k of JStr t \<Rightarrow> JArr (map JStr (split_comma t)) | _ \<Rightarrow> k)
                  in case kws of
                       JArr xs \<Rightarrow>
                         (case collect (map (\<lambda>x. case js_toString x of
                                                    Inl e \<Rightarrow> Inl e
                                                  | Inr t \<Rightarrow> Inr (substring0 50 (trim t))) xs) of
                            Inl e \<Rightarrow> Inl e
                          | Inr ts \<Rightarrow> Inr (Some (take 10 ts)))
                     | _ \<Rightarrow> Inr (Some []))
            else Inr None) of
        Inl e \<Rightarrow> Inl e
      | Inr sanitized_keywords \<Rightarrow>
          Inr \<lparr> gender = sanitized_gender, location = sanitized_location,
                age = sanitized_age, profile_keywords = sanitized_keywords \<rparr>))))))))"

definition extractPreferences :: "jsval \<Rightarrow> error + preferences" where
  "extractPreferences p =
     (case get_prop p ''preferredGender'' of
        Inl e \<Rightarrow> Inl e
      | Inr pg \<Rightarrow>
     (case get_prop p ''preferredAgeRange'' of
        Inl e \<Rightarrow> Inl e
      | Inr pa \<Rightarrow>
     (case get_prop p ''preferredLocation'' of
        Inl e \<Rightarrow> Inl e
      | Inr pl \<Rightarrow>
     (case get_prop p ''keywords'' of
        Inl e \<Rightarrow> Inl e
      | Inr k \<Rightarrow>
          Inr \<lparr> preferredGender = js_or pg (JStr ''any''),
                preferredAgeRange = js_or pa (JStr ''any''),
                preferredLocation = js_or pl (JStr ''any''),
                interests = js_or k (JArr []) \<rparr>))))"

text \<open>
  \<open>extractPreferences(user.profile)\<close> in \<open>updateProfile\<close> reads a sanitized profile,
  which has no \<open>preferred\<dots>\<close> entries.
\<close>

definition extractPreferences_profile :: "profile \<Rightarrow> preferences" where
  "extractPreferences_profile p =
     \<lparr> preferredGender = JStr ''any'', preferredAgeRange = JStr ''any'',
       preferredLocation = JStr ''any'',
       interests = (case profile_keywords p of None \<Rightarrow> JArr [] | Some ks \<Rightarrow> JArr (map JStr ks)) \<rparr>"

text \<open>\<open>s || d\<close> on an optional string: absent and empty are falsy.\<close>

definition str_or :: "string option \<Rightarrow> string \<Rightarrow> string" where
  "str_or v d = (case v of None \<Rightarrow> d | Some t \<Rightarrow> if t = [] then d else t)"

definition getPublicProfile :: "user \<Rightarrow> public_profile" where
  "getPublicProfile u =
     \<lparr> pp_gender = str_or (gender (u_profile u)) ''not-specified'',
       pp_location = str_or (location (u_profile u)) ''unknown'',
       pp_age = str_or (age (u_profile u)) ''not-specified'',
       pp_interests = (case profile_keywords (u_profile u) of None \<Rightarrow> [] | Some ks \<Rightarrow> ks),
       pp_trustScore = real_of_int (round (trustScore (flags u) * 100)) / 100 \<rparr>"

definition addToConnectionHistory :: "user_manager \<Rightarrow> connection_event \<Rightarrow> user_manager" where
  "addToConnectionHistory s entry =
     (let h = connectionHistory s @ [entry]
      in s\<lparr> connectionHistory :=
              (if length h > um_maxHistorySize s then slice_last (um_maxHistorySize s) h else h) \<rparr>)"

text \<open>\<open>createUser(socketId, profile = {})\<close>; \<open>userId\<close> is the identifier \<open>uuidv4()\<close> drew.\<close>

definition createUser ::
  "user_manager \<Rightarrow> string \<Rightarrow> jsval \<Rightarrow> string \<Rightarrow> int \<Rightarrow> error + (user \<times> user_manager)" where
  "createUser s sock profile_arg userId now =
     (let p = (if profile_arg = JUndefined then JObj [] else profile_arg)
      in case sanitizeProfile p of
           Inl e \<Rightarrow> Inl e
         | Inr prof \<Rightarrow>
        (case extractPreferences p of
           Inl e \<Rightarrow> Inl e
         | Inr prefs \<Rightarrow>
             let u = \<lparr> user_id = userId, socketId = sock, u_profile = prof,
                       connectionTime = now, u_lastActivity = now, u_status = ''online'',
                       currentChatId = None, u_preferences = prefs,
                       sessionData = \<lparr> ipAddress = None, userAgent = None,
                                       country = None, city = None \<rparr>,
                       stats = \<lparr> st_totalChats = 0, st_totalMessages = 0,
                                 st_averageChatDuration = 0, st_violations = 0 \<rparr>,
                       flags = \<lparr> isReported = False, isBanned = False, isBot = False,
                                 trustScore = 1 \<rparr>,
                       violations = None, banInfo = None \<rparr>;
                 r = next_ref s;
                 s1 = s\<lparr> heap := (heap s)(r := Some u), next_ref := r + 1,
                         users := map_set (users s) sock r,
                         usersByUserId := map_set (usersByUserId s) userId r,
                         totalConnections := totalConnections s + 1 \<rparr>
             in Inr (u, addToConnectionHistory s1
                          (Connected userId sock now (getPublicProfile u)))))"

definition getUser :: "user_manager \<Rightarrow> string \<Rightarrow> user option" where
  "getUser s sock = map_option snd (lookup_user s (users s) sock)"

definition getUserById :: "user_manager \<Rightarrow> string \<Rightarrow> user option" where
  "getUserById s userId = map_option snd (lookup_user s (usersByUserId s) userId)"

definition removeUser :: "user_manager \<Rightarrow> string \<Rightarrow> int \<Rightarrow> bool \<times> user_manager" where
  "removeUser s sock now =
     (case lookup_user s (users s) sock of
        None \<Rightarrow> (False, s)
      | Some (r, u) \<Rightarrow>
          let s1 = s\<lparr> users := map_delete (users s) sock,
                      usersByUserId := map_delete (usersByUserId s) (user_id u) \<rparr>
          in (True, addToConnectionHistory s1
                      (Disconnected (user_id u) sock now (now - connectionTime u)
                         (st_totalChats (stats u)) (st_totalMessages (stats u)))))"

text \<open>\<open>updateActivity(socketId)\<close> of UserManager.\<close>

definition updateActivity_user :: "user_manager \<Rightarrow> string \<Rightarrow> int \<Rightarrow> user_manager" where
  "updateActivity_user s sock now =
     (case lookup_user s (users s) sock of
        None \<Rightarrow> s
      | Some (r, u) \<Rightarrow> store_user s r (u\<lparr> u_lastActivity := now \<rparr>))"

definition updateProfile ::
  "user_manager \<Rightarrow> string \<Rightarrow> jsval \<Rightarrow> int \<Rightarrow> error + (bool \<times> user_manager)" where
  "updateProfile s sock profileUpdates now =
     (case lookup_user s (users s) sock of
        None \<Rightarrow> Inr (False, s)
      | Some (r, u) \<Rightarrow>
         (case sanitizeProfile profileUpdates of
            Inl e \<Rightarrow> Inl e
          | Inr sanitizedUpdates \<Rightarrow>
              let old = u_profile u;
                  merged = \<lparr> gender = (case gender sanitizedUpdates of
                                          None \<Rightarrow> gender old | Some v \<Rightarrow> Some v),
                             location = (case location sanitizedUpdates of
                                          None \<Rightarrow> location old | Some v \<Rightarrow> Some v),
                             age = (case age sanitizedUpdates of
                                          None \<Rightarrow> age old | Some v \<Rightarrow> Some v),
                             profile_keywords = (case profile_keywords sanitizedUpdates of
                                          None \<Rightarrow> profile_keywords old | Some v \<Rightarrow> Some v) \<rparr>
              in Inr (True, store_user s r
                        (u\<lparr> u_profile := merged,
                            u_preferences := extractPreferences_profile merged,
                            u_lastActivity := now \<rparr>))))"

definition setCurrentChat :: "user_manager \<Rightarrow> string \<Rightarrow> string \<Rightarrow> int \<Rightarrow> user_manager" where
  "setCurrentChat s sock chatId now =
     (case lookup_user s (users s) sock of
        None \<Rightarrow> s
      | Some (r, u) \<Rightarrow>
          store_user s r (u\<lparr> currentChatId := Some chatId, u_lastActivity := now \<rparr>))"

definition clearCurrentChat :: "user_manager \<Rightarrow> string \<Rightarrow> int \<Rightarrow> user_manager" where
  "clearCurrentChat s sock now =
     (case lookup_user s (users s) sock of
        None \<Rightarrow> s
      | Some (r, u) \<Rightarrow>
          store_user s r
            (u\<lparr> currentChatId := None,
                stats := (stats u)\<lparr> st_totalChats := st_totalChats (stats u) + 1 \<rparr>,
                u_lastActivity := now \<rparr>))"

text \<open>
  \<open>updateStats(socketId, statUpdates)\<close>: \<open>Object.assign(user.stats, statUpdates)\<close>
  overwrites the statistics that \<open>statUpdates\<close> names.
\<close>

record stat_updates =
  upd_totalChats :: "int option"
  upd_totalMessages :: "int option"
  upd_averageChatDuration :: "real option"
  upd_violations :: "int option"

definition updateStats :: "user_manager \<Rightarrow> string \<Rightarrow> stat_updates \<Rightarrow> int \<Rightarrow> user_manager" where
  "updateStats s sock statUpdates now =
     (case lookup_user s (users s) sock of
        None \<Rightarrow> s
      | Some (r, u) \<Rightarrow>
          let st = stats u;
              st' = \<lparr> st_totalChats = (case upd_totalChats statUpdates of
                                          None \<Rightarrow> st_totalChats st | Some v \<Rightarrow> v),
                      st_totalMessages = (case upd_totalMessages statUpdates of
                                          None \<Rightarrow> st_totalMessages st | Some v \<Rightarrow> v),
                      st_averageChatDuration = (case upd_averageChatDuration statUpdates of
                                          None \<Rightarrow> st_averageChatDuration st | Some v \<Rightarrow> v),
                      st_violations = (case upd_violations statUpdates of
                                          None \<Rightarrow> st_violations st | Some v \<Rightarrow> v) \<rparr>
          in store_user s r (u\<lparr> stats := st', u_lastActivity := now \<rparr>))"

text \<open>The names a plain object inherits from \<open>Object.prototype\<close>; each member is truthy.\<close>

definition object_prototype_names :: "string list" where
  "object_prototype_names =
     [''constructor'', ''__defineGetter__'', ''__defineSetter__'', ''hasOwnProperty'',
      ''__lookupGetter__'', ''__lookupSetter__'', ''isPrototypeOf'',
      ''propertyIsEnumerable'', ''toString'', ''valueOf'', ''__proto__'',
      ''toLocaleString'']"

definition getViolationSeverity :: "string \<Rightarrow> severity" where
  "getViolationSeverity violationType =
     (case map_of [(''spam'', ''medium''), (''inappropriate_content'', ''high''),
                   (''harassment'', ''high''), (''rate_limit_exceeded'', ''low''),
                   (''suspicious_behavior'', ''medium''), (''malicious_content'', ''high'')]
             violationType of
        Some sev \<Rightarrow> Severity sev
      | None \<Rightarrow>
          if violationType \<in> set object_prototype_names then Inherited violationType
          else Severity ''medium'')"

definition banUser :: "user_manager \<Rightarrow> string \<Rightarrow> string \<Rightarrow> int \<Rightarrow> user_manager" where
  "banUser s userId reason now =
     (case lookup_user s (usersByUserId s) userId of
        None \<Rightarrow> s
      | Some (r, u) \<Rightarrow>
          store_user s r
            (u\<lparr> flags := (flags u)\<lparr> isBanned := True \<rparr>,
                banInfo := Some \<lparr> ban_reason = reason, ban_timestamp = now,
                                  bannedBy = ''system'' \<rparr> \<rparr>))"

text \<open>
  \<open>flagUser(userId, violationType, details = {})\<close>. The score is a double:
  \<open>Math.max(0, trustScore - 0.1)\<close> subtracts the double \<open>0.1\<close> and rounds, and the ban
  test compares with the double \<open>0.3\<close>.
\<close>

definition flagUser :: "user_manager \<Rightarrow> string \<Rightarrow> string \<Rightarrow> jsval \<Rightarrow> int \<Rightarrow> user_manager" where
  "flagUser s userId violationType details now =
     (case lookup_user s (usersByUserId s) userId of
        None \<Rightarrow> s
      | Some (r, u) \<Rightarrow>
          let u1 = u\<lparr> stats := (stats u)\<lparr> st_violations := st_violations (stats u) + 1 \<rparr>,
                      flags := (flags u)\<lparr> trustScore :=
                                 max 0 (double_sub (trustScore (flags u)) (round_double (1 / 10))) \<rparr> \<rparr>;
              u2 = u1\<lparr> violations :=
                         Some ((case violations u1 of None \<Rightarrow> [] | Some vs \<Rightarrow> vs) @
                               [\<lparr> v_type = violationType, v_timestamp = now,
                                  v_details = (if details = JUndefined then JObj [] else details),
                                  v_severity = getViolationSeverity violationType \<rparr>]) \<rparr>;
              s1 = store_user s r u2
          in if st_violations (stats u2) \<ge> 5 \<or> trustScore (flags u2) \<le> round_double (3 / 10)
             then banUser s1 userId ''Automated ban due to multiple violations'' now
             else s1)"

definition isUserBanned :: "user_manager \<Rightarrow> string \<Rightarrow> bool" where
  "isUserBanned s userId =
     (case lookup_user s (usersByUserId s) userId of
        None \<Rightarrow> False
      | Some (r, u) \<Rightarrow> isBanned (flags u))"

definition getOnlineCount :: "user_manager \<Rightarrow> nat" where
  "getOnlineCount s = length (users s)"

definition cleanupInactiveUsers :: "user_manager \<Rightarrow> int \<Rightarrow> int \<Rightarrow> nat \<times> user_manager" where
  "cleanupInactiveUsers s inactivityThreshold now =
     (let inactiveUsers =
            map fst (filter (\<lambda>(sock, r). case heap s r of
                                             None \<Rightarrow> False
                                           | Some u \<Rightarrow> now - u_lastActivity u > inactivityThreshold)
                            (users s))
      in (length inactiveUsers,
          foldl (\<lambda>s' sock. snd (removeUser s' sock now)) s inactiveUsers))"

text \<open>The callback that \<open>setSessionTimeout(userId)\<close> schedules.\<close>

definition sessionTimeout :: "user_manager \<Rightarrow> string \<Rightarrow> int \<Rightarrow> user_manager" where
  "sessionTimeout s userId now =
     (case lookup_user s (usersByUserId s) userId of
        None \<Rightarrow> s
      | Some (r, u) \<Rightarrow> snd (removeUser s (socketId u) now))"

text \<open>
  The operations a UserManager can undergo. A call that throws leaves the manager as
  it was: \<open>createUser\<close> and \<open>updateProfile\<close> throw before they write anything.
\<close>

datatype user_op =
    CreateUser string jsval string int
  | RemoveUser string int
  | UpdateActivityUser string int
  | UpdateProfile string jsval int
  | SetCurrentChat string string int
  | ClearCurrentChat string int
  | UpdateStats string stat_updates int
  | FlagUser string string jsval int
  | BanUser string string int
  | CleanupInactiveUsers int int
  | SessionTimeout string int

fun user_step :: "user_manager \<Rightarrow> user_op \<Rightarrow> user_manager" where
  "user_step s (CreateUser sock p uid now) =
     (case createUser s sock p uid now of Inl e \<Rightarrow> s | Inr (u, s') \<Rightarrow> s')"
| "user_step s (RemoveUser sock now) = snd (removeUser s sock now)"
| "user_step s (UpdateActivityUser sock now) = updateActivity_user s sock now"
| "user_step s (UpdateProfile sock p now) =
     (case updateProfile s sock p now of Inl e \<Rightarrow> s | Inr (b, s') \<Rightarrow> s')"
| "user_step s (SetCurrentChat sock cid now) = setCurrentChat s sock cid now"
| "user_step s (ClearCurrentChat sock now) = clearCurrentChat s sock now"
| "user_step s (UpdateStats sock upd now) = updateStats s sock upd now"
| "user_step s (FlagUser uid vt details now) = flagUser s uid vt details now"
| "user_step s (BanUser uid reason now) = banUser s uid reason now"
| "user_step s (CleanupInactiveUsers th now) = snd (cleanupInactiveUsers s th now)"
| "user_step s (SessionTimeout uid now) = sessionTimeout s uid now"

definition user_run :: "user_op list \<Rightarrow> user_manager" where
  "user_run ops = foldl user_step user_manager_init ops"

text \<open>
  What every reachable UserManager satisfies: trust scores lie between 0 and 1, and no
  object lives at a reference that is still to be allocated.
\<close>

definition um_inv :: "user_manager \<Rightarrow> bool" where
  "um_inv s = (\<forall>r. (case heap s r of
                      None \<Rightarrow> True
                    | Some u \<Rightarrow> 0 \<le> trustScore (flags u) \<and> trustScore (flags u) \<le> 1 \<and>
                               r < next_ref s))"

text \<open>
  How the user objects of one manager relate to those of a later one: every object is
  still there, its trust score has not risen and a ban has not been lifted.
\<close>

definition heap_le :: "user_manager \<Rightarrow> user_manager \<Rightarrow> bool" where
  "heap_le s s' =
     (\<forall>r. case heap s r of
             None \<Rightarrow> True
           | Some u \<Rightarrow>
               (case heap s' r of
                  None \<Rightarrow> False
                | Some u' \<Rightarrow> trustScore (flags u') \<le> trustScore (flags u) \<and>
                            (isBanned (flags u) \<longrightarrow> isBanned (flags u'))))"

text \<open>Whether an operation is a \<open>createUser\<close> whose \<open>uuidv4()\<close> drew the given identifier.\<close>

fun draws_id :: "user_op \<Rightarrow> string \<Rightarrow> bool" where
  "draws_id (CreateUser sock p uid now) userId = (uid = userId)"
| "draws_id op userId = False"


section \<open>MatchingEngine\<close>

text \<open>
  The preferences a client sends with \<open>find-match\<close> are a decoded value. The engine
  compares one of its properties with \<open>> 0\<close>, which coerces the operand to a number
  first; that comparison is the argument \<open>gt0\<close> of the functions below, and what is
  proved holds for every such function.
\<close>

text \<open>\<open>v.length\<close> of a truthy value.\<close>

fun js_length :: "jsval \<Rightarrow> jsval" where
  "js_length (JStr t) = JNum (int (length t))"
| "js_length (JArr xs) = JNum (int (length xs))"
| "js_length (JObj kvs) = (case map_of kvs ''length'' of None \<Rightarrow> JUndefined | Some v \<Rightarrow> v)"
| "js_length v = JUndefined"

record queue_prefs =
  qp_chatType :: jsval
  qp_gender :: jsval
  qp_age :: jsval
  qp_location :: jsval
  qp_keywords :: "jsval list"

record requirement =
  req_type :: string
  req_value :: jsval
  req_strict :: bool

record compatibility_info =
  requirements :: "requirement list"
  flexibility :: real

text \<open>
  A queue entry refers to the user object it was made for; the engine reads the
  object's profile and flags when it scores. The entry carries the user as read.
\<close>

record queue_entry =
  qe_id :: string
  qe_userId :: string
  qe_user :: user
  qe_preferences :: queue_prefs
  queuedAt :: int
  attempts :: nat
  lastAttempt :: "int option"
  priority :: real
  compatibility :: compatibility_info

record queue_history_entry =
  qh_userId :: string
  qh_action :: string
  qh_timestamp :: int
  qh_preferences :: "jsval option"

record matching_stats =
  totalMatches :: nat
  successfulMatches :: nat
  averageWaitTime :: real
  matchingAccuracy :: real

record match_weights =
  w_gender :: real
  w_age :: real
  w_location :: real
  w_interests :: real
  w_trustScore :: real

record matching_engine =
  matchingQueue :: "(string, queue_entry) jsmap"
  queueHistory :: "queue_history_entry list"
  matchingStats :: matching_stats
  weights :: match_weights
  maxQueueSize :: nat
  maxWaitTime :: int
  matchingInterval :: int

definition matching_engine_init :: matching_engine where
  "matching_engine_init =
     \<lparr> matchingQueue = [], queueHistory = [],
       matchingStats = \<lparr> totalMatches = 0, successfulMatches = 0, averageWaitTime = 0,
                         matchingAccuracy = 0 \<rparr>,
       weights = \<lparr> w_gender = 3 / 10, w_age = 2 / 10, w_location = 15 / 100,
                   w_interests = 25 / 100, w_trustScore = 1 / 10 \<rparr>,
       maxQueueSize = 1000, maxWaitTime = 5 * 60 * 1000, matchingInterval = 2000 \<rparr>"

definition sanitizePreferences :: "jsval \<Rightarrow> error + queue_prefs" where
  "sanitizePreferences preferences =
     (case get_prop preferences ''chatType'' of
        Inl e \<Rightarrow> Inl e
      | Inr ct \<Rightarrow>
     (case get_prop preferences ''gender'' of
        Inl e \<Rightarrow> Inl e
      | Inr g \<Rightarrow>
     (case get_prop preferences ''age'' of
        Inl e \<Rightarrow> Inl e
      | Inr a \<Rightarrow>
     (case get_prop preferences ''location'' of
        Inl e \<Rightarrow> Inl e
      | Inr l \<Rightarrow>
     (case get_prop preferences ''keywords'' of
        Inl e \<Rightarrow> Inl e
      | Inr k \<Rightarrow>
          Inr \<lparr> qp_chatType = js_or ct (JStr ''text''),
                qp_gender = js_or g (JStr ''any''),
                qp_age = js_or a (JStr ''any''),
                qp_location = js_or l (JStr ''any''),
                qp_keywords = (case k of JArr xs \<Rightarrow> xs | _ \<Rightarrow> []) \<rparr>)))))"

definition calculatePriority :: "user \<Rightarrow> int \<Rightarrow> real" where
  "calculatePriority u now =
     (let p0 = (1::real);
          p1 = p0 + (trustScore (flags u) - 5 / 10) * (5 / 10);
          p2 = p1 - real_of_int (st_violations (stats u)) * (1 / 10);
          hoursSinceConnection = real_of_int (now - connectionTime u) / (60 * 60 * 1000);
          p3 = (if hoursSinceConnection < 1 then p2 + 2 / 10 else p2)
      in max (1 / 10) (min 2 p3))"

definition calculateFlexibility :: "jsval \<Rightarrow> error + real" where
  "calculateFlexibility preferences =
     (case get_prop preferences ''gender'' of
        Inl e \<Rightarrow> Inl e
      | Inr g \<Rightarrow>
     (case get_prop preferences ''age'' of
        Inl e \<Rightarrow> Inl e
      | Inr a \<Rightarrow>
     (case get_prop preferences ''location'' of
        Inl e \<Rightarrow> Inl e
      | Inr l \<Rightarrow>
     (case get_prop preferences ''keywords'' of
        Inl e \<Rightarrow> Inl e
      | Inr k \<Rightarrow>
          let f1 = (if g = JStr ''any'' then 1 else 0::real);
              f2 = (if \<not> truthy a \<or> a = JStr ''any'' then f1 + 1 else f1);
              f3 = (if \<not> truthy l \<or> l = JStr ''any'' then f2 + 1 else f2);
              f4 = (if \<not> truthy k \<or> js_length k = JNum 0 then f3 + 1 else f3)
          in Inr (f4 / 4)))))"

definition extractRequirements :: "(jsval \<Rightarrow> error + bool) \<Rightarrow> jsval \<Rightarrow> error + requirement list" where
  "extractRequirements gt0 preferences =
     (case get_prop preferences ''gender'' of
        Inl e \<Rightarrow> Inl e
      | Inr g \<Rightarrow>
     (case get_prop preferences ''age'' of
        Inl e \<Rightarrow> Inl e
      | Inr a \<Rightarrow>
     (case get_prop preferences ''location'' of
        Inl e \<Rightarrow> Inl e
      | Inr l \<Rightarrow>
     (case get_prop preferences ''keywords'' of
        Inl e \<Rightarrow> Inl e
      | Inr k \<Rightarrow>
     (case (if truthy k then gt0 (js_length k) else Inr False) of
        Inl e \<Rightarrow> Inl e
      | Inr has_keywords \<Rightarrow>
          Inr ((if truthy g \<and> g \<noteq> JStr ''any''
                then [\<lparr> req_type = ''gender'', req_value = g, req_strict = True \<rparr>] else []) @
               (if truthy a \<and> a \<noteq> JStr ''any''
                then [\<lparr> req_type = ''age'', req_value = a, req_strict = False \<rparr>] else []) @
               (if truthy l \<and> l \<noteq> JStr ''any''
                then [\<lparr> req_type = ''location'', req_value = l, req_strict = False \<rparr>] else []) @
               (if has_keywords
                then [\<lparr> req_type = ''interests'', req_value = k, req_strict = False \<rparr>]
                else [])))))))"

text \<open>
  \<open>addToQueue(user, preferences)\<close>. The entry is built, field by field, before the
  queue is written, so a \<open>throw\<close> leaves the engine as it was.
\<close>

definition addToQueue ::
  "(jsval \<Rightarrow> error + bool) \<Rightarrow> matching_engine \<Rightarrow> user \<Rightarrow> jsval \<Rightarrow> string \<Rightarrow> int
     \<Rightarrow> error + (queue_entry \<times> matching_engine)" where
  "addToQueue gt0 s usr preferences uuid now =
     (case map_get (matchingQueue s) (user_id usr) of
        Some existing \<Rightarrow> Inr (existing, s)
      | None \<Rightarrow>
          if length (matchingQueue s) \<ge> maxQueueSize s then Inl QueueFull
          else
           (case sanitizePreferences preferences of
              Inl e \<Rightarrow> Inl e
            | Inr sp \<Rightarrow>
           (case extractRequirements gt0 preferences of
              Inl e \<Rightarrow> Inl e
            | Inr reqs \<Rightarrow>
           (case calculateFlexibility preferences of
              Inl e \<Rightarrow> Inl e
            | Inr flex \<Rightarrow>
               let queueEntry =
                     \<lparr> qe_id = uuid, qe_userId = user_id usr, qe_user = usr,
                       qe_preferences = sp, queuedAt = now, attempts = 0,
                       lastAttempt = None, priority = calculatePriority usr now,
                       compatibility = \<lparr> requirements = reqs, flexibility = flex \<rparr> \<rparr>
               in Inr (queueEntry,
                       s\<lparr> matchingQueue := map_set (matchingQueue s) (user_id usr) queueEntry,
                          queueHistory := queueHistory s @
                            [\<lparr> qh_userId = user_id usr, qh_action = ''queued'',
                               qh_timestamp = now,
                               qh_preferences = Some preferences \<rparr>] \<rparr>)))))"

definition removeFromQueue :: "matching_engine \<Rightarrow> string \<Rightarrow> int \<Rightarrow> bool \<times> matching_engine" where
  "removeFromQueue s userId now =
     (if map_has (matchingQueue s) userId
      then (True, s\<lparr> matchingQueue := map_delete (matchingQueue s) userId,
                     queueHistory := queueHistory s @
                       [\<lparr> qh_userId = userId, qh_action = ''removed'', qh_timestamp = now,
                          qh_preferences = None \<rparr>] \<rparr>)
      else (False, s))"

text \<open>
  Calls of \<open>addToQueue\<close> for one user, one after the other, each with its own
  preferences, identifier drawn and clock; a call that throws changes nothing.
\<close>

fun addToQueue_repeat ::
  "(jsval \<Rightarrow> error + bool) \<Rightarrow> matching_engine \<Rightarrow> user \<Rightarrow> (jsval \<times> string \<times> int) list
     \<Rightarrow> (error + queue_entry) list \<times> matching_engine" where
  "addToQueue_repeat gt0 s usr [] = ([], s)"
| "addToQueue_repeat gt0 s usr ((preferences, uuid, now) # calls) =
     (case addToQueue gt0 s usr preferences uuid now of
        Inl e \<Rightarrow> (let (rs, s') = addToQueue_repeat gt0 s usr calls in (Inl e # rs, s'))
      | Inr (entry, s1) \<Rightarrow>
          (let (rs, s') = addToQueue_repeat gt0 s1 usr calls in (Inr entry # rs, s')))"

text \<open>The number of entries the queue holds for a user.\<close>

definition queue_entries_of :: "matching_engine \<Rightarrow> string \<Rightarrow> nat" where
  "queue_entries_of s userId = length (filter (\<lambda>(k, e). k = userId) (matchingQueue s))"

subsection \<open>Compatibility scoring\<close>

text \<open>
  A profile field that may be absent: \<open>!v\<close> holds of an absent and of an empty one;
  \<open>opt_text\<close> is the text of a present one.
\<close>

definition falsy_str :: "string option \<Rightarrow> bool" where
  "falsy_str v = (case v of None \<Rightarrow> True | Some t \<Rightarrow> t = [])"

definition opt_text :: "string option \<Rightarrow> string" where
  "opt_text v = (case v of None \<Rightarrow> [] | Some t \<Rightarrow> t)"

definition calculateGenderCompatibility :: "queue_entry \<Rightarrow> queue_entry \<Rightarrow> real" where
  "calculateGenderCompatibility entry1 entry2 =
     (let pref1 = js_or (qp_gender (qe_preferences entry1)) (JStr ''any'');
          pref2 = js_or (qp_gender (qe_preferences entry2)) (JStr ''any'');
          gender1 = str_or (gender (u_profile (qe_user entry1))) ''not-specified'';
          gender2 = str_or (gender (u_profile (qe_user entry2))) ''not-specified''
      in if pref1 = JStr ''any'' \<and> pref2 = JStr ''any'' then 1
         else (if pref1 = JStr ''any'' \<or> pref1 = JStr gender2 then 5 / 10 else 0) +
              (if pref2 = JStr ''any'' \<or> pref2 = JStr gender1 then 5 / 10 else 0))"

definition calculateAgeCompatibility :: "queue_entry \<Rightarrow> queue_entry \<Rightarrow> real" where
  "calculateAgeCompatibility entry1 entry2 =
     (let age1 = age (u_profile (qe_user entry1));
          age2 = age (u_profile (qe_user entry2));
          prefAge1 = qp_age (qe_preferences entry1);
          prefAge2 = qp_age (qe_preferences entry2)
      in if falsy_str age1 \<or> falsy_str age2 \<or> age1 = Some ''not-specified'' \<or>
            age2 = Some ''not-specified'' then 5 / 10
         else if age1 = age2 then 1
         else (if \<not> truthy prefAge1 \<or> prefAge1 = JStr ''any'' \<or> prefAge1 = JStr (opt_text age2)
               then 5 / 10 else 0) +
              (if \<not> truthy prefAge2 \<or> prefAge2 = JStr ''any'' \<or> prefAge2 = JStr (opt_text age1)
               then 5 / 10 else 0))"

text \<open>\<open>l.split(',')[0].trim()\<close>.\<close>

definition country_of :: "string \<Rightarrow> string" where
  "country_of l = trim (case split_comma l of [] \<Rightarrow> [] | p # ps \<Rightarrow> p)"

definition calculateLocationCompatibility :: "queue_entry \<Rightarrow> queue_entry \<Rightarrow> real" where
  "calculateLocationCompatibility entry1 entry2 =
     (let loc1 = location (u_profile (qe_user entry1));
          loc2 = location (u_profile (qe_user entry2))
      in if falsy_str loc1 \<or> falsy_str loc2 then 5 / 10
         else
           let location1 = toLowerCase (opt_text loc1);
               location2 = toLowerCase (opt_text loc2)
           in if location1 = location2 then 1
              else if country_of location1 = country_of location2 then 8 / 10
              else if includes_str location1 location2 \<or> includes_str location2 location1
              then 6 / 10
              else 3 / 10)"

text \<open>\<open>new Set(xs)\<close>: the elements of \<open>xs\<close>, each once, in order of first occurrence.\<close>

definition js_set :: "'a list \<Rightarrow> 'a list" where
  "js_set xs = rev (remdups (rev xs))"

definition calculateInterestCompatibility :: "queue_entry \<Rightarrow> queue_entry \<Rightarrow> real" where
  "calculateInterestCompatibility entry1 entry2 =
     (let interests1 = (case profile_keywords (u_profile (qe_user entry1)) of
                          None \<Rightarrow> [] | Some ks \<Rightarrow> ks);
          interests2 = (case profile_keywords (u_profile (qe_user entry2)) of
                          None \<Rightarrow> [] | Some ks \<Rightarrow> ks)
      in if length interests1 = 0 \<and> length interests2 = 0 then 5 / 10
         else if length interests1 = 0 \<or> length interests2 = 0 then 4 / 10
         else
           let set1 = js_set (map toLowerCase interests1);
               set2 = js_set (map toLowerCase interests2);
               intersection = js_set (filter (\<lambda>x. x \<in> set set2) set1);
               union = js_set (set1 @ set2);
               jaccardSimilarity = real (length intersection) / real (length union);
               commonCount = length intersection;
               bonus = min (real commonCount * (1 / 10)) (3 / 10)
           in min (jaccardSimilarity + bonus) 1)"

text \<open>\<open>t || 1.0\<close>: a trust score of 0 is falsy.\<close>

definition calculateTrustCompatibility :: "queue_entry \<Rightarrow> queue_entry \<Rightarrow> real" where
  "calculateTrustCompatibility entry1 entry2 =
     (let trust1 = (if trustScore (flags (qe_user entry1)) = 0 then 1
                    else trustScore (flags (qe_user entry1)));
          trust2 = (if trustScore (flags (qe_user entry2)) = 0 then 1
                    else trustScore (flags (qe_user entry2)));
          averageTrust = (trust1 + trust2) / 2;
          trustDifference = \<bar>trust1 - trust2\<bar>
      in averageTrust * (1 - trustDifference * (5 / 10)))"

definition calculateCompatibility :: "matching_engine \<Rightarrow> queue_entry \<Rightarrow> queue_entry \<Rightarrow> real" where
  "calculateCompatibility s entry1 entry2 =
     (let w = weights s;
          totalScore = 0 + calculateGenderCompatibility entry1 entry2 * w_gender w
                         + calculateAgeCompatibility entry1 entry2 * w_age w
                         + calculateLocationCompatibility entry1 entry2 * w_location w
                         + calculateInterestCompatibility entry1 entry2 * w_interests w
                         + calculateTrustCompatibility entry1 entry2 * w_trustScore w;
          totalWeight = 0 + w_gender w + w_age w + w_location w + w_interests w + w_trustScore w
      in if totalWeight > 0 then totalScore / totalWeight else 0)"

section \<open>ChatManager: proofs\<close>

lemma map_get_Nil: "map_get [] k = None"
  by (simp add: map_get_def)

lemma map_get_set [simp]:
  "map_get (map_set m k v) k' = (if k' = k then Some v else map_get m k')"
  by (simp add: map_get_def map_set_def update_conv')

lemma map_get_delete [simp]:
  "map_get (map_delete m k) k' = (if k' = k then None else map_get m k')"
  by (simp add: map_get_def map_delete_def delete_conv')

lemma addToHistory_fields [simp]:
  "chats (addToHistory s c) = chats s"
  "userChats (addToHistory s c) = userChats s"
  "maxMessagesPerChat (addToHistory s c) = maxMessagesPerChat s"
  "maxHistorySize (addToHistory s c) = maxHistorySize s"
  by (simp_all add: addToHistory_def Let_def)

lemma endChat_absent: "map_get (chats s) cid = None \<Longrightarrow> endChat s cid r b now = (False, s)"
  by (simp add: endChat_def)

lemma endChat_get [simp]:
  "map_get (chats (snd (endChat s cid r b now))) cid' =
     (if cid' = cid then None else map_get (chats s) cid')"
  by (auto simp: endChat_def Let_def split: option.splits)

lemma endChat_consts [simp]:
  "maxMessagesPerChat (snd (endChat s cid r b now)) = maxMessagesPerChat s"
  "maxHistorySize (snd (endChat s cid r b now)) = maxHistorySize s"
  by (auto simp: endChat_def Let_def split: option.splits)

lemma endChat_fst: "fst (endChat s cid r b now) = (map_get (chats s) cid \<noteq> None)"
  by (auto simp: endChat_def Let_def split: option.splits)

text \<open>
  Claim C1, as the code has it. \<open>endChat\<close> returns a boolean, not a summary: \<open>true\<close>
  when it found the chat and ended it. The first successful call removes the chat
  from \<open>chats\<close>, so a second call for the same id, with any reason, finds nothing,
  returns \<open>false\<close> and leaves every field of the manager (chats, user-to-chat
  index, history, counters) as the first call left it.
\<close>

theorem endChat_second_call:
  assumes "endChat s chatId reason by now = (True, s')"
  shows "map_get (chats s') chatId = None \<and>
         endChat s' chatId reason' by' now' = (False, s')"
proof -
  have "s' = snd (endChat s chatId reason by now)" using assms by simp
  then have "map_get (chats s') chatId = None" by simp
  then show ?thesis by (simp add: endChat_absent)
qed

lemma updateChatAnalytics_fields [simp]:
  "messages (updateChatAnalytics c m now) = messages c"
  "status (updateChatAnalytics c m now) = status c"
  "settings (updateChatAnalytics c m now) = settings c"
  by (simp_all add: updateChatAnalytics_def Let_def)

lemma chat_ok_cong:
  "messages c' = messages c \<Longrightarrow> status c' = status c \<Longrightarrow> settings c' = settings c
     \<Longrightarrow> chat_ok c' = chat_ok c"
  by (simp add: chat_ok_def seq_ok_def)

lemma chat_ok_add:
  "chat_ok c \<Longrightarrow> sequence e = length (messages c) + 1 \<Longrightarrow>
     chat_ok (updateChatAnalytics
       (c\<lparr> messages := messages c @ [e], metadata := md, lastActivity := la \<rparr>) m now)"
  by (simp add: chat_ok_def seq_ok_def)

lemma cm_inv_init: "cm_inv chat_manager_init"
  by (simp add: cm_inv_def chat_manager_init_def map_get_def)

lemma cm_inv_endChat: "cm_inv s \<Longrightarrow> cm_inv (snd (endChat s cid r b now))"
  by (simp add: cm_inv_def)

lemma cm_inv_createChat: "cm_inv s \<Longrightarrow> cm_inv (snd (createChat s u1 u2 ty cid now))"
  by (simp add: cm_inv_def createChat_def Let_def chat_ok_def seq_ok_def)

lemma cm_inv_addMessage: "cm_inv s \<Longrightarrow> cm_inv (snd (addMessage s cid m uuid now))"
  by (simp add: cm_inv_def addMessage_def Let_def chat_ok_add split: option.split)

lemma updateActivity_chat_consts [simp]:
  "maxMessagesPerChat (updateActivity_chat s cid ty dt dd now) = maxMessagesPerChat s"
  "maxHistorySize (updateActivity_chat s cid ty dt dd now) = maxHistorySize s"
  by (simp_all add: updateActivity_chat_def Let_def split: option.split)

lemma updateActivity_chat_get:
  "map_get (chats (updateActivity_chat s cid ty dt dd now)) cid' = Some c' \<Longrightarrow>
     \<exists>c. map_get (chats s) cid' = Some c \<and> messages c' = messages c \<and>
         status c' = status c \<and> settings c' = settings c"
  by (auto simp: updateActivity_chat_def Let_def split: option.splits if_splits)

lemma cm_invI:
  "maxMessagesPerChat s' = 1000 \<Longrightarrow> maxHistorySize s' = 10000 \<Longrightarrow>
   (\<And>cid c'. map_get (chats s') cid = Some c' \<Longrightarrow> chat_ok c') \<Longrightarrow> cm_inv s'"
  by (simp add: cm_inv_def)

lemma cm_inv_get: "cm_inv s \<Longrightarrow> map_get (chats s) cid = Some c \<Longrightarrow> chat_ok c"
  by (simp add: cm_inv_def)

lemma cm_inv_consts: "cm_inv s \<Longrightarrow> maxMessagesPerChat s = 1000 \<and> maxHistorySize s = 10000"
  by (simp add: cm_inv_def)

lemma cm_inv_updateActivity:
  assumes inv: "cm_inv s"
  shows "cm_inv (updateActivity_chat s cid ty dt dd now)"
proof (rule cm_invI)
  fix cid' c'
  assume "map_get (chats (updateActivity_chat s cid ty dt dd now)) cid' = Some c'"
  from updateActivity_chat_get[OF this] obtain c where
    c: "map_get (chats s) cid' = Some c" "messages c' = messages c"
       "status c' = status c" "settings c' = settings c" by blast
  from cm_inv_get[OF inv c(1)] c(2-4) show "chat_ok c'" by (simp add: chat_ok_def seq_ok_def)
qed (use cm_inv_consts[OF inv] in simp_all)

lemma reportIssue_consts [simp]:
  "maxMessagesPerChat (snd (reportIssue s cid rep iss d uuid now)) = maxMessagesPerChat s"
  "maxHistorySize (snd (reportIssue s cid rep iss d uuid now)) = maxHistorySize s"
  by (simp_all add: reportIssue_def Let_def split: option.split del: set_simps)

lemma reportIssue_get:
  "map_get (chats (snd (reportIssue s cid rep iss d uuid now))) cid' = Some c' \<Longrightarrow>
     \<exists>c. map_get (chats s) cid' = Some c \<and> messages c' = messages c \<and>
         status c' = status c \<and> settings c' = settings c"
  by (auto simp: reportIssue_def Let_def split: option.splits if_splits simp del: set_simps)

lemma cm_inv_reportIssue:
  assumes inv: "cm_inv s"
  shows "cm_inv (snd (reportIssue s cid rep iss d uuid now))"
proof (rule cm_invI)
  fix cid' c'
  assume "map_get (chats (snd (reportIssue s cid rep iss d uuid now))) cid' = Some c'"
  from reportIssue_get[OF this] obtain c where
    c: "map_get (chats s) cid' = Some c" "messages c' = messages c"
       "status c' = status c" "settings c' = settings c" by blast
  from cm_inv_get[OF inv c(1)] c(2-4) show "chat_ok c'" by (simp add: chat_ok_def seq_ok_def)
qed (use cm_inv_consts[OF inv] in simp_all)

lemma cm_inv_foldl_endChat:
  "cm_inv s \<Longrightarrow> cm_inv (foldl (\<lambda>s' chatId. snd (endChat s' chatId r b now)) s cids)"
  by (induction cids arbitrary: s) (simp_all add: cm_inv_endChat)

lemma cm_inv_cleanup: "cm_inv s \<Longrightarrow> cm_inv (snd (cleanupInactiveChats s th now))"
  by (simp add: cleanupInactiveChats_def Let_def cm_inv_foldl_endChat)

lemma cm_inv_step: "cm_inv s \<Longrightarrow> cm_inv (chat_step s op)"
  by (cases op) (simp_all add: cm_inv_createChat cm_inv_addMessage cm_inv_endChat
       cm_inv_updateActivity cm_inv_reportIssue cm_inv_cleanup)

lemma cm_inv_foldl: "cm_inv s \<Longrightarrow> cm_inv (foldl chat_step s ops)"
  by (induction ops arbitrary: s) (simp_all add: cm_inv_step)

lemma cm_inv_run: "cm_inv (chat_run ops)"
  by (simp add: chat_run_def cm_inv_foldl cm_inv_init)


lemma addMessage_fst:
  "fst (addMessage s cid m uuid now) \<longleftrightarrow>
     (\<exists>c. map_get (chats s) cid = Some c \<and> status c = Active \<and>
          length (messages c) < maxMessages (settings c))"
  by (auto simp: addMessage_def Let_def split: option.splits)

lemma addMessage_absent:
  "map_get (chats s) cid = None \<Longrightarrow> addMessage s cid m uuid now = (False, s)"
  by (simp add: addMessage_def)

lemma addMessage_cap:
  "map_get (chats s) cid = Some c \<Longrightarrow> status c = Active \<Longrightarrow>
   maxMessages (settings c) \<le> length (messages c) \<Longrightarrow>
   addMessage s cid m uuid now =
     (False, snd (endChat s cid ''message_limit_reached'' None now))"
  by (simp add: addMessage_def)

lemma addMessage_appends:
  "map_get (chats s) cid = Some c \<Longrightarrow> fst (addMessage s cid m uuid now) \<Longrightarrow>
   \<exists>c'. map_get (chats (snd (addMessage s cid m uuid now))) cid = Some c' \<and>
        butlast (messages c') = messages c \<and>
        length (messages c') = length (messages c) + 1 \<and>
        sequence (last (messages c')) = length (messages c) + 1 \<and>
        msg_senderId (last (messages c')) = in_senderId m"
  by (simp add: addMessage_def Let_def split: if_splits)

lemma calculateFinalAnalytics_metadata [simp]:
  "metadata (calculateFinalAnalytics c) = metadata c"
  by (simp add: calculateFinalAnalytics_def Let_def)

lemma endChat_history_last:
  "map_get (chats s) cid = Some c \<Longrightarrow> maxHistorySize s = 10000 \<Longrightarrow>
   h_endReason (last (chatHistory (snd (endChat s cid r b now)))) = Some r"
  by (simp add: endChat_def Let_def addToHistory_def slice_last_def last_drop)

text \<open>
  Claim C2. After any sequence of ChatManager operations on a fresh manager, the
  sequence numbers of the messages stored in any chat are \<open>1, 2, \<dots>, n\<close> in
  order of insertion, and a successful \<open>addMessage\<close> keeps the stored messages,
  appends one, and gives it the sequence number one plus the previous count.
\<close>

theorem message_sequence_no_gaps:
  assumes "map_get (chats (chat_run ops)) chatId = Some chat"
  shows "map sequence (messages chat) = [1 ..< Suc (length (messages chat))] \<and>
     (\<forall>m uuid now. fst (addMessage (chat_run ops) chatId m uuid now) \<longrightarrow>
        (\<exists>chat'. map_get (chats (snd (addMessage (chat_run ops) chatId m uuid now))) chatId
                   = Some chat' \<and>
           butlast (messages chat') = messages chat \<and>
           length (messages chat') = length (messages chat) + 1 \<and>
           sequence (last (messages chat')) = length (messages chat) + 1))"
proof -
  have "chat_ok chat" using cm_inv_run assms by (rule cm_inv_get)
  then have "map sequence (messages chat) = [1 ..< Suc (length (messages chat))]"
    by (simp add: chat_ok_def seq_ok_def)
  moreover have "\<exists>chat'. map_get (chats (snd (addMessage (chat_run ops) chatId m uuid now))) chatId
                   = Some chat' \<and>
           butlast (messages chat') = messages chat \<and>
           length (messages chat') = length (messages chat) + 1 \<and>
           sequence (last (messages chat')) = length (messages chat) + 1"
    if "fst (addMessage (chat_run ops) chatId m uuid now)" for m uuid now
    using addMessage_appends[OF assms that] by blast
  ultimately show ?thesis by blast
qed

lemma chat_run_snoc: "chat_run (ops @ [op]) = chat_step (chat_run ops) op"
  by (simp add: chat_run_def)

lemma createChat_get:
  "map_get (chats (snd (createChat s u1 u2 ty cid now))) cid' =
     (if cid' = cid then Some (fst (createChat s u1 u2 ty cid now)) else map_get (chats s) cid')"
  by (simp add: createChat_def Let_def)

lemma createChat_fst_fields [simp]:
  "messages (fst (createChat s u1 u2 ty cid now)) = []"
  "status (fst (createChat s u1 u2 ty cid now)) = Active"
  "participants (fst (createChat s u1 u2 ty cid now)) = [u1, u2]"
  "maxMessages (settings (fst (createChat s u1 u2 ty cid now))) = maxMessagesPerChat s"
  by (simp_all add: createChat_def Let_def)

lemma addMessage_grows:
  assumes "cm_inv s" and "map_get (chats s) cid = Some c" and "length (messages c) < 1000"
  shows "\<exists>c'. map_get (chats (snd (addMessage s cid m uuid now))) cid = Some c' \<and>
              length (messages c') = Suc (length (messages c))"
proof -
  have "chat_ok c" using assms(1,2) by (rule cm_inv_get)
  then have "fst (addMessage s cid m uuid now)"
    using assms(2,3) by (simp add: addMessage_fst chat_ok_def)
  from addMessage_appends[OF assms(2) this] show ?thesis by auto
qed

text \<open>The theorem of C2 at a chat that received two messages.\<close>

theorem message_sequence_no_gaps_witness:
  "\<exists>chat. map_get (chats (chat_run
       [CreateChat ''a'' ''b'' None ''r1'' 0,
        AddMessage ''r1'' \<lparr> in_id = [], in_senderId = ''a'', in_message = ''hi'',
                            in_type = ''user'' \<rparr> ''m1'' 1,
        AddMessage ''r1'' \<lparr> in_id = [], in_senderId = ''b'', in_message = ''yo'',
                            in_type = ''user'' \<rparr> ''m2'' 2])) ''r1'' = Some chat \<and>
     map sequence (messages chat) = [1, 2]"
proof -
  let ?o1 = "CreateChat ''a'' ''b'' None ''r1'' 0"
  let ?m2 = "\<lparr> in_id = [], in_senderId = ''a'', in_message = ''hi'', in_type = ''user'' \<rparr>"
  let ?m3 = "\<lparr> in_id = [], in_senderId = ''b'', in_message = ''yo'', in_type = ''user'' \<rparr>"
  let ?o2 = "AddMessage ''r1'' ?m2 ''m1'' 1"
  let ?o3 = "AddMessage ''r1'' ?m3 ''m2'' 2"
  have "\<exists>c. map_get (chats (chat_run [?o1])) ''r1'' = Some c \<and> length (messages c) = 0"
    by (simp add: chat_run_def createChat_get)
  then obtain c1 where c1: "map_get (chats (chat_run [?o1])) ''r1'' = Some c1"
    and l1: "length (messages c1) = 0" by blast
  have r2: "chat_run [?o1, ?o2] = snd (addMessage (chat_run [?o1]) ''r1'' ?m2 ''m1'' 1)"
    using chat_run_snoc[of "[?o1]" ?o2] by simp
  have "\<exists>c'. map_get (chats (snd (addMessage (chat_run [?o1]) ''r1'' ?m2 ''m1'' 1))) ''r1'' = Some c'
          \<and> length (messages c') = Suc (length (messages c1))"
    by (rule addMessage_grows[OF cm_inv_run c1]) (simp add: l1)
  then obtain c2 where c2: "map_get (chats (chat_run [?o1, ?o2])) ''r1'' = Some c2"
    and l2: "length (messages c2) = 1" unfolding r2 l1 by auto
  have r3: "chat_run [?o1, ?o2, ?o3] = snd (addMessage (chat_run [?o1, ?o2]) ''r1'' ?m3 ''m2'' 2)"
    using chat_run_snoc[of "[?o1, ?o2]" ?o3] by simp
  have "\<exists>c'. map_get (chats (snd (addMessage (chat_run [?o1, ?o2]) ''r1'' ?m3 ''m2'' 2))) ''r1'' = Some c'
          \<and> length (messages c') = Suc (length (messages c2))"
    by (rule addMessage_grows[OF cm_inv_run c2]) (simp add: l2)
  then obtain c3 where h: "map_get (chats (chat_run [?o1, ?o2, ?o3])) ''r1'' = Some c3"
    and l: "length (messages c3) = 2" unfolding r3 l2 by auto
  have "map sequence (messages c3) = [1 ..< Suc (length (messages c3))]"
    using message_sequence_no_gaps[OF h] by blast
  also have "\<dots> = [1 ..< Suc 2]" using l by simp
  also have "\<dots> = [1, 2]" by code_simp
  finally have "map sequence (messages c3) = [1, 2]" .
  with h show ?thesis by (intro exI[of _ c3] conjI)
qed


text \<open>The theorem of C1 at a chat that was just created and is ended twice.\<close>

theorem endChat_second_call_witness:
  "fst (endChat (snd (createChat chat_manager_init ''a'' ''b'' None ''r1'' 0))
           ''r1'' ''user_action'' (Some ''a'') 5) \<and>
   endChat (snd (endChat (snd (createChat chat_manager_init ''a'' ''b'' None ''r1'' 0))
                   ''r1'' ''user_action'' (Some ''a'') 5))
           ''r1'' ''user_action'' (Some ''a'') 9 =
     (False, snd (endChat (snd (createChat chat_manager_init ''a'' ''b'' None ''r1'' 0))
                   ''r1'' ''user_action'' (Some ''a'') 5))"
proof -
  let ?s = "snd (createChat chat_manager_init ''a'' ''b'' None ''r1'' 0)"
  have f: "fst (endChat ?s ''r1'' ''user_action'' (Some ''a'') 5)"
    by (simp add: endChat_fst createChat_get)
  then have "endChat ?s ''r1'' ''user_action'' (Some ''a'') 5 =
               (True, snd (endChat ?s ''r1'' ''user_action'' (Some ''a'') 5))"
    by (simp add: prod_eq_iff)
  from endChat_second_call[OF this] f show ?thesis by simp
qed

text \<open>
  Claim C1 as stated asks for the second call to return what the first returned. On a
  chat that exists the first call returns \<open>true\<close> and the second \<open>false\<close>.
\<close>

theorem endChat_same_result_counterexample:
  "fst (endChat (snd (createChat chat_manager_init ''a'' ''b'' None ''r1'' 0))
           ''r1'' ''user_action'' None 5) \<noteq>
   fst (endChat (snd (endChat (snd (createChat chat_manager_init ''a'' ''b'' None ''r1'' 0))
                        ''r1'' ''user_action'' None 5))
           ''r1'' ''user_action'' None 5)"
  by (simp add: endChat_fst createChat_get)

lemma length_filter_update:
  "length (filter P (AList.update k v al)) \<le> length (filter P al) + (if P (k, v) then 1 else 0)"
  by (induction al) auto

lemma user_rooms_createChat:
  "length (user_rooms (snd (createChat s u1 u2 ty cid now)) u) \<le>
     length (user_rooms s u) + (if u = u1 \<or> u = u2 then 1 else 0)"
proof -
  let ?P = "\<lambda>(chatId, chat). status chat = Active \<and> u \<in> set (participants chat)"
  let ?c = "fst (createChat s u1 u2 ty cid now)"
  have ch: "chats (snd (createChat s u1 u2 ty cid now)) = AList.update cid ?c (chats s)"
    by (simp add: createChat_def Let_def map_set_def)
  have "?P (cid, ?c) = (u = u1 \<or> u = u2)" by auto
  then show ?thesis
    unfolding user_rooms_def ch length_map
    using length_filter_update[of ?P cid ?c "chats s"] by simp
qed

lemma createChat_userChats:
  "map_get (userChats (snd (createChat s u1 u2 ty cid now))) u1 = Some cid"
  "map_get (userChats (snd (createChat s u1 u2 ty cid now))) u2 = Some cid"
  by (simp_all add: createChat_def Let_def)

text \<open>
  Claim C6, as the code has it. \<open>createChat\<close> checks nothing. When every user is a
  participant of at most one active chat and neither of the two users is a
  participant of any, the same holds after \<open>createChat\<close>, and the user-to-chat index
  sends both users to the new chat.
\<close>

theorem createChat_preserves_one_room:
  assumes "\<forall>u. length (user_rooms s u) \<le> 1"
    and "user_rooms s user1Id = []" and "user_rooms s user2Id = []"
  shows "(\<forall>u. length (user_rooms (snd (createChat s user1Id user2Id chatType chatId now)) u) \<le> 1)
     \<and> map_get (userChats (snd (createChat s user1Id user2Id chatType chatId now))) user1Id
           = Some chatId
     \<and> map_get (userChats (snd (createChat s user1Id user2Id chatType chatId now))) user2Id
           = Some chatId"
proof -
  have "length (user_rooms (snd (createChat s user1Id user2Id chatType chatId now)) u) \<le> 1" for u
  proof (cases "u = user1Id \<or> u = user2Id")
    case True
    then have "length (user_rooms s u) = 0" using assms(2,3) by auto
    then show ?thesis
      using user_rooms_createChat[of s user1Id user2Id chatType chatId now u] True by simp
  next
    case False
    then show ?thesis
      using user_rooms_createChat[of s user1Id user2Id chatType chatId now u] assms(1)
      by (simp add: le_trans)
  qed
  then show ?thesis by (simp add: createChat_userChats)
qed

lemma user_rooms_init [simp]: "user_rooms chat_manager_init u = []"
  by (simp add: user_rooms_def chat_manager_init_def)

text \<open>The theorem of C6 at the first chat of a fresh manager.\<close>

theorem createChat_preserves_one_room_witness:
  "(\<forall>u. length (user_rooms (snd (createChat chat_manager_init ''a'' ''b'' None ''r1'' 0)) u) \<le> 1)
   \<and> map_get (userChats (snd (createChat chat_manager_init ''a'' ''b'' None ''r1'' 0))) ''a''
        = Some ''r1''"
  using createChat_preserves_one_room[of chat_manager_init "''a''" "''b''" None "''r1''" 0]
  by simp

text \<open>
  Claim C6 as stated covers states where a user already has a current chat. There
  \<open>createChat\<close> goes ahead: user \<open>a\<close>, in chat \<open>r1\<close>, is put into \<open>r2\<close> as well and is
  then a participant of two active chats.
\<close>

theorem createChat_in_room_counterexample:
  "length (user_rooms (snd (createChat chat_manager_init ''a'' ''b'' None ''r1'' 0)) ''a'') \<le> 1
   \<and> getUserCurrentChat (snd (createChat chat_manager_init ''a'' ''b'' None ''r1'' 0)) ''a'' \<noteq> None
   \<and> user_rooms (snd (createChat (snd (createChat chat_manager_init ''a'' ''b'' None ''r1'' 0))
                          ''a'' ''c'' None ''r2'' 1)) ''a'' = [''r1'', ''r2'']"
  by (simp add: user_rooms_def createChat_def Let_def chat_manager_init_def map_set_def
        getUserCurrentChat_def map_get_def)

text \<open>
  Claim C7, as the code has it. On a manager reached by any sequence of operations,
  \<open>addMessage\<close> returns \<open>true\<close> exactly when the chat is stored, active and holds
  fewer than 1000 messages, whoever the sender is. For an unknown chat id it returns
  \<open>false\<close> and changes nothing. At 1000 messages it returns \<open>false\<close> and the manager
  is the one \<open>endChat\<close> leaves for the reason \<open>message_limit_reached\<close>: the chat is gone
  from \<open>chats\<close> and the last history entry carries that reason.
\<close>

theorem addMessage_outcome:
  "(fst (addMessage (chat_run ops) chatId m uuid now) \<longleftrightarrow>
      (\<exists>c. map_get (chats (chat_run ops)) chatId = Some c \<and> status c = Active \<and>
           length (messages c) < 1000))
   \<and> (map_get (chats (chat_run ops)) chatId = None \<longrightarrow>
        addMessage (chat_run ops) chatId m uuid now = (False, chat_run ops))
   \<and> (\<forall>c. map_get (chats (chat_run ops)) chatId = Some c \<and> 1000 \<le> length (messages c) \<longrightarrow>
        addMessage (chat_run ops) chatId m uuid now =
          (False, snd (endChat (chat_run ops) chatId ''message_limit_reached'' None now)) \<and>
        map_get (chats (snd (addMessage (chat_run ops) chatId m uuid now))) chatId = None \<and>
        h_endReason (last (chatHistory (snd (addMessage (chat_run ops) chatId m uuid now))))
          = Some ''message_limit_reached'')"
proof -
  let ?s = "chat_run ops"
  have inv: "cm_inv ?s" by (rule cm_inv_run)
  have ok: "chat_ok c" if "map_get (chats ?s) chatId = Some c" for c
    using inv that by (rule cm_inv_get)
  have a: "fst (addMessage ?s chatId m uuid now) \<longleftrightarrow>
      (\<exists>c. map_get (chats ?s) chatId = Some c \<and> status c = Active \<and> length (messages c) < 1000)"
    unfolding addMessage_fst using ok by (auto simp: chat_ok_def)
  have b: "map_get (chats ?s) chatId = None \<longrightarrow> addMessage ?s chatId m uuid now = (False, ?s)"
    by (simp add: addMessage_absent)
  have c: "addMessage ?s chatId m uuid now =
          (False, snd (endChat ?s chatId ''message_limit_reached'' None now)) \<and>
        map_get (chats (snd (addMessage ?s chatId m uuid now))) chatId = None \<and>
        h_endReason (last (chatHistory (snd (addMessage ?s chatId m uuid now))))
          = Some ''message_limit_reached''"
    if g: "map_get (chats ?s) chatId = Some c" and l: "1000 \<le> length (messages c)" for c
  proof -
    have k: "status c = Active" "maxMessages (settings c) \<le> length (messages c)"
      using ok[OF g] l by (simp_all add: chat_ok_def)
    have e: "addMessage ?s chatId m uuid now =
          (False, snd (endChat ?s chatId ''message_limit_reached'' None now))"
      by (rule addMessage_cap[OF g k])
    have h: "maxHistorySize ?s = 10000" using cm_inv_consts[OF inv] by simp
    show ?thesis unfolding e snd_conv
      using endChat_history_last[OF g h] by simp
  qed
  from a b c show ?thesis by blast
qed

text \<open>
  Claim C7 as stated lets only a participant succeed. \<open>addMessage\<close> never looks at the
  sender: a message whose sender \<open>z\<close> is not in the chat is stored.
\<close>

theorem addMessage_non_participant_counterexample:
  "''z'' \<notin> set (participants (the (map_get
       (chats (snd (createChat chat_manager_init ''a'' ''b'' None ''r1'' 0))) ''r1'')))
   \<and> fst (addMessage (snd (createChat chat_manager_init ''a'' ''b'' None ''r1'' 0)) ''r1''
        \<lparr> in_id = [], in_senderId = ''z'', in_message = ''hi'', in_type = ''user'' \<rparr> ''m1'' 1)"
  by (simp add: addMessage_fst createChat_get chat_manager_init_def)


lemma addMessage_many:
  "cm_inv s \<Longrightarrow> map_get (chats s) cid = Some c \<Longrightarrow> length (messages c) + n \<le> 1000 \<Longrightarrow>
   \<exists>c'. map_get (chats (foldl chat_step s (replicate n (AddMessage cid m uuid now)))) cid = Some c'
        \<and> length (messages c') = length (messages c) + n"
proof (induction n arbitrary: s c)
  case 0
  then show ?case by simp
next
  case (Suc n)
  from Suc.prems(3) have "length (messages c) < 1000" by simp
  from addMessage_grows[OF Suc.prems(1,2) this, of m uuid now] obtain c1 where
    c1: "map_get (chats (chat_step s (AddMessage cid m uuid now))) cid = Some c1"
        "length (messages c1) = Suc (length (messages c))" by auto
  have inv1: "cm_inv (chat_step s (AddMessage cid m uuid now))"
    using Suc.prems(1) by (rule cm_inv_step)
  have "length (messages c1) + n \<le> 1000" using c1(2) Suc.prems(3) by simp
  from Suc.IH[OF inv1 c1(1) this] c1(2) show ?case by simp
qed

text \<open>
  The theorem of C7 at a new chat (accepted), at an unknown chat id (refused, nothing
  changed) and at a chat that holds 1000 messages (refused and ended).
\<close>

theorem addMessage_outcome_witness:
  "fst (addMessage (chat_run [CreateChat ''a'' ''b'' None ''r1'' 0]) ''r1''
          \<lparr> in_id = [], in_senderId = ''a'', in_message = ''hi'', in_type = ''user'' \<rparr> ''m'' 1)
   \<and> addMessage (chat_run [CreateChat ''a'' ''b'' None ''r1'' 0]) ''r2''
          \<lparr> in_id = [], in_senderId = ''a'', in_message = ''hi'', in_type = ''user'' \<rparr> ''m'' 1
       = (False, chat_run [CreateChat ''a'' ''b'' None ''r1'' 0])
   \<and> \<not> fst (addMessage
          (chat_run (CreateChat ''a'' ''b'' None ''r1'' 0 # replicate 1000 (AddMessage ''r1''
             \<lparr> in_id = [], in_senderId = ''a'', in_message = ''hi'', in_type = ''user'' \<rparr> ''m'' 1)))
          ''r1''
          \<lparr> in_id = [], in_senderId = ''a'', in_message = ''hi'', in_type = ''user'' \<rparr> ''m'' 2)
   \<and> map_get (chats (snd (addMessage
          (chat_run (CreateChat ''a'' ''b'' None ''r1'' 0 # replicate 1000 (AddMessage ''r1''
             \<lparr> in_id = [], in_senderId = ''a'', in_message = ''hi'', in_type = ''user'' \<rparr> ''m'' 1)))
          ''r1''
          \<lparr> in_id = [], in_senderId = ''a'', in_message = ''hi'', in_type = ''user'' \<rparr> ''m'' 2)))
        ''r1'' = None"
proof -
  define M where "M = \<lparr> in_id = [], in_senderId = ''a'', in_message = ''hi'', in_type = ''user'' \<rparr>"
  define o1 where "o1 = CreateChat ''a'' ''b'' None ''r1'' 0"
  define r1 where "r1 = ''r1''"
  define r2 where "r2 = ''r2''"
  define u where "u = ''m''"
  have ne: "r2 \<noteq> r1" by (simp add: r1_def r2_def)
  have g0: "\<exists>c. map_get (chats (chat_run [o1])) r1 = Some c \<and> status c = Active \<and>
              length (messages c) = 0"
    by (simp add: chat_run_def createChat_get o1_def r1_def)
  then obtain c0 where c0: "map_get (chats (chat_run [o1])) r1 = Some c0"
    "status c0 = Active" "length (messages c0) = 0" by blast
  have n2: "map_get (chats (chat_run [o1])) r2 = None"
    by (simp add: chat_run_def createChat_get o1_def r1_def r2_def chat_manager_init_def
          map_get_Nil)
  have A: "fst (addMessage (chat_run [o1]) r1 M u 1)"
    using addMessage_outcome[of "[o1]" r1 M u 1] c0 by auto
  have B: "addMessage (chat_run [o1]) r2 M u 1 = (False, chat_run [o1])"
    using addMessage_outcome[of "[o1]" r2 M u 1] n2 by blast
  let ?full = "chat_run (o1 # replicate 1000 (AddMessage r1 M u 1))"
  have run: "?full = foldl chat_step (chat_run [o1]) (replicate 1000 (AddMessage r1 M u 1))"
    by (simp add: chat_run_def)
  have "length (messages c0) + 1000 \<le> 1000" using c0(3) by simp
  from addMessage_many[OF cm_inv_run c0(1) this, of M u 1] obtain c where
    c: "map_get (chats ?full) r1 = Some c" "length (messages c) = 1000"
    unfolding run using c0(3) by auto
  have C: "\<not> fst (addMessage ?full r1 M u 2)"
    using addMessage_outcome[of "o1 # replicate 1000 (AddMessage r1 M u 1)" r1 M u 2] c by auto
  have D: "map_get (chats (snd (addMessage ?full r1 M u 2))) r1 = None"
    using addMessage_outcome[of "o1 # replicate 1000 (AddMessage r1 M u 1)" r1 M u 2] c by auto
  from A B C D show ?thesis
    unfolding M_def o1_def r1_def r2_def u_def by (intro conjI)
qed

section \<open>Doubles: proofs\<close>

lemma pow2_pos: "0 < pow2 e"
  by (simp add: pow2_def)

lemma pow2_small:
  assumes "e \<le> - 53"
  shows "pow2 e \<le> 1 / 2 ^ 53"
proof -
  have "53 \<le> nat (- e)" using assms by simp
  then have "(2::real) ^ 53 \<le> 2 ^ nat (- e)" by (intro power_increasing) simp_all
  then have "1 / (2::real) ^ nat (- e) \<le> 1 / 2 ^ 53" by (intro divide_left_mono) simp_all
  then show ?thesis using assms by (simp add: pow2_def)
qed

lemma exp_down_le: "exp_down a e n \<le> e"
proof (induction n arbitrary: e)
  case 0
  then show ?case by simp
next
  case (Suc n)
  from Suc[of "e - 1"] show ?case by simp
qed

lemma double_exponent_below_one:
  assumes "a < 1"
  shows "double_exponent a \<le> - 1"
proof -
  have n: "(1022::nat) = Suc 1021" by simp
  have p: "pow2 0 = 1" by (simp add: pow2_def)
  have "exp_down a 0 (Suc 1021) = (if a < pow2 0 then exp_down a (0 - 1) 1021 else 0)"
    by (rule exp_down.simps(2))
  also have "\<dots> = exp_down a (0 - 1) 1021" using assms by (simp only: p if_True)
  finally have "exp_down a 0 1022 \<le> 0 - 1"
    unfolding n[symmetric] using exp_down_le[of a "0 - 1" 1021] by simp
  then show ?thesis using assms by (simp add: double_exponent_def)
qed

lemma round_half_even_near: "\<bar>real_of_int (round_half_even q) - q\<bar> \<le> 1 / 2"
  unfolding round_half_even_def Let_def by (auto simp: abs_le_iff)

lemma round_half_even_nonneg: "0 \<le> q \<Longrightarrow> 0 \<le> round_half_even q"
  unfolding round_half_even_def Let_def by auto

lemma round_double_nonpos: "x \<le> 0 \<Longrightarrow> round_double x \<le> 0"
proof (cases "x = 0")
  case True
  then show ?thesis by (simp add: round_double_def)
next
  case False
  assume "x \<le> 0"
  with False have neg: "x < 0" by simp
  let ?ulp = "pow2 (double_exponent \<bar>x\<bar> - 52)"
  have "0 \<le> \<bar>x\<bar> / ?ulp" using pow2_pos[of "double_exponent \<bar>x\<bar> - 52"] by simp
  then have "0 \<le> real_of_int (round_half_even (\<bar>x\<bar> / ?ulp)) * ?ulp"
    using round_half_even_nonneg pow2_pos[of "double_exponent \<bar>x\<bar> - 52"] by simp
  then show ?thesis using neg False
    by (simp add: round_double_def Let_def mult.assoc)
qed

lemma round_double_nonneg: "0 \<le> x \<Longrightarrow> 0 \<le> round_double x"
proof (cases "x = 0")
  case True
  then show ?thesis by (simp add: round_double_def)
next
  case False
  assume "0 \<le> x"
  with False have pos: "0 < x" by simp
  let ?ulp = "pow2 (double_exponent \<bar>x\<bar> - 52)"
  have "0 \<le> \<bar>x\<bar> / ?ulp" using pow2_pos[of "double_exponent \<bar>x\<bar> - 52"] by simp
  then have "0 \<le> real_of_int (round_half_even (\<bar>x\<bar> / ?ulp)) * ?ulp"
    using round_half_even_nonneg pow2_pos[of "double_exponent \<bar>x\<bar> - 52"] by simp
  then show ?thesis using pos False
    by (simp add: round_double_def Let_def mult.assoc)
qed

lemma round_double_near:
  assumes "0 < x" and "x < 1"
  shows "\<bar>round_double x - x\<bar> \<le> 1 / 2 ^ 54"
proof -
  let ?e = "double_exponent x"
  let ?ulp = "pow2 (?e - 52)"
  let ?n = "real_of_int (round_half_even (x / ?ulp))"
  have up: "0 < ?ulp" by (rule pow2_pos)
  have "?e - 52 \<le> - 53" using double_exponent_below_one[OF assms(2)] by simp
  from pow2_small[OF this] have ul: "?ulp \<le> 1 / 2 ^ 53" .
  have rd: "round_double x = ?n * ?ulp"
    using assms(1) by (simp add: round_double_def Let_def)
  have "\<bar>?n * ?ulp - x\<bar> = \<bar>?n - x / ?ulp\<bar> * ?ulp"
  proof -
    have "?n * ?ulp - x = (?n - x / ?ulp) * ?ulp" using up by (simp add: field_simps)
    then show ?thesis using up by (simp add: abs_mult)
  qed
  also have "\<dots> \<le> (1 / 2) * ?ulp"
    using round_half_even_near[of "x / ?ulp"] up by (intro mult_right_mono) simp_all
  also have "\<dots> \<le> (1 / 2) * (1 / 2 ^ 53)" using ul by simp
  also have "\<dots> = 1 / 2 ^ 54" by simp
  finally show ?thesis unfolding rd .
qed

lemma double_tenth: "round_double (1 / 10) = 3602879701896397 / 2 ^ 55"
  by code_simp


lemma flag_score_bounds:
  assumes "0 \<le> t" and "t \<le> 1"
  shows "0 \<le> max 0 (double_sub t (round_double (1 / 10)))"
    and "max 0 (double_sub t (round_double (1 / 10))) \<le> t"
    and "\<bar>max 0 (double_sub t (round_double (1 / 10))) - max 0 (t - 1 / 10)\<bar> \<le> 1 / 2 ^ 53"
proof -
  define d where "d = (3602879701896397 / 2 ^ 55 :: real)"
  define c where "c = (1 / (5 * 2 ^ 55) :: real)"
  define e53 where "e53 = (1 / 2 ^ 53 :: real)"
  define e54 where "e54 = (1 / 2 ^ 54 :: real)"
  define w where "w = (1 / 10 :: real)"
  define x where "x = t - d"
  have k: "d - w = c" "0 < d" "0 < c" "c \<le> e53" "e54 + c \<le> e53" "e54 < d"
    by (simp_all add: d_def c_def e53_def e54_def w_def)
  have ds: "double_sub t (round_double (1 / 10)) = round_double x"
    by (simp add: double_sub_def double_tenth x_def d_def)
  show "0 \<le> max 0 (double_sub t (round_double (1 / 10)))" by simp
  have both: "max 0 (round_double x) \<le> t \<and> \<bar>max 0 (round_double x) - max 0 (t - w)\<bar> \<le> e53"
  proof (cases "x \<le> 0")
    case True
    then have z: "max 0 (round_double x) = 0" using round_double_nonpos[of x] by simp
    have "t - w \<le> c" using True k(1) unfolding x_def by linarith
    then have "\<bar>0 - max 0 (t - w)\<bar> \<le> e53" using k(3,4) by (simp add: max_def abs_le_iff)
    then show ?thesis using z assms(1) by simp
  next
    case False
    then have xp: "0 < x" by simp
    have x1: "x < 1" using assms(2) k(2) unfolding x_def by linarith
    have n: "\<bar>round_double x - x\<bar> \<le> e54"
      using round_double_near[OF xp x1] by (simp add: e54_def)
    have le: "round_double x \<le> t" using n k(6) unfolding x_def by (simp add: abs_le_iff)
    have "x - (t - w) = - c" using k(1) unfolding x_def by linarith
    then have "\<bar>round_double x - (t - w)\<bar> \<le> e53"
      using n k(3,5) unfolding abs_le_iff by linarith
    then have "\<bar>max 0 (round_double x) - max 0 (t - w)\<bar> \<le> e53"
      unfolding abs_le_iff max_def using k(3,4) by (auto split: if_splits)
    then show ?thesis using le assms(1) by simp
  qed
  then show "max 0 (double_sub t (round_double (1 / 10))) \<le> t"
    and "\<bar>max 0 (double_sub t (round_double (1 / 10))) - max 0 (t - 1 / 10)\<bar> \<le> 1 / 2 ^ 53"
    unfolding ds w_def e53_def by simp_all
qed

section \<open>UserManager: proofs\<close>

lemma lookup_userD:
  "lookup_user s m k = Some (r, u) \<Longrightarrow> heap s r = Some u \<and> map_get m k = Some r"
  by (auto simp: lookup_user_def split: option.splits)

lemma heap_store_user [simp]:
  "heap (store_user s r u) r' = (if r' = r then Some u else heap s r')"
  by (simp add: store_user_def)

lemma store_user_fields [simp]:
  "next_ref (store_user s r u) = next_ref s"
  "users (store_user s r u) = users s"
  "usersByUserId (store_user s r u) = usersByUserId s"
  by (simp_all add: store_user_def)

lemma addToConnectionHistory_fields [simp]:
  "heap (addToConnectionHistory s e) = heap s"
  "next_ref (addToConnectionHistory s e) = next_ref s"
  "users (addToConnectionHistory s e) = users s"
  "usersByUserId (addToConnectionHistory s e) = usersByUserId s"
  by (simp_all add: addToConnectionHistory_def Let_def)

lemma um_invD:
  "um_inv s \<Longrightarrow> heap s r = Some u \<Longrightarrow> 0 \<le> trustScore (flags u) \<and> trustScore (flags u) \<le> 1 \<and> r < next_ref s"
  unfolding um_inv_def by (drule spec[of _ r]) simp

lemma um_invI:
  "(\<And>r u. heap s r = Some u \<Longrightarrow> 0 \<le> trustScore (flags u) \<and> trustScore (flags u) \<le> 1 \<and> r < next_ref s) \<Longrightarrow> um_inv s"
  unfolding um_inv_def by (auto split: option.splits)

lemma heap_leI:
  "(\<And>r u. heap s r = Some u \<Longrightarrow>
      \<exists>u'. heap s' r = Some u' \<and> trustScore (flags u') \<le> trustScore (flags u) \<and>
           (isBanned (flags u) \<longrightarrow> isBanned (flags u'))) \<Longrightarrow> heap_le s s'"
  unfolding heap_le_def by (fastforce split: option.splits)

lemma heap_leD:
  "heap_le s s' \<Longrightarrow> heap s r = Some u \<Longrightarrow>
     \<exists>u'. heap s' r = Some u' \<and> trustScore (flags u') \<le> trustScore (flags u) \<and>
          (isBanned (flags u) \<longrightarrow> isBanned (flags u'))"
  unfolding heap_le_def by (drule spec[of _ r]) (simp split: option.splits)

lemma heap_le_refl: "heap_le s s"
  by (rule heap_leI) simp

lemma heap_le_same: "heap s' = heap s \<Longrightarrow> heap_le s s'"
  by (rule heap_leI) simp

lemma heap_le_trans:
  assumes "heap_le s1 s2" and "heap_le s2 s3"
  shows "heap_le s1 s3"
proof (rule heap_leI)
  fix r u
  assume "heap s1 r = Some u"
  from heap_leD[OF assms(1) this] obtain u2 where
    u2: "heap s2 r = Some u2" "trustScore (flags u2) \<le> trustScore (flags u)"
        "isBanned (flags u) \<longrightarrow> isBanned (flags u2)" by blast
  from heap_leD[OF assms(2) u2(1)] obtain u3 where
    u3: "heap s3 r = Some u3" "trustScore (flags u3) \<le> trustScore (flags u2)"
        "isBanned (flags u2) \<longrightarrow> isBanned (flags u3)" by blast
  from u2 u3 show "\<exists>u'. heap s3 r = Some u' \<and> trustScore (flags u') \<le> trustScore (flags u) \<and>
           (isBanned (flags u) \<longrightarrow> isBanned (flags u'))" by auto
qed

lemma store_le:
  assumes "um_inv s" and "heap s r = Some u"
    and "trustScore (flags u') \<le> trustScore (flags u)" and "0 \<le> trustScore (flags u')"
    and "isBanned (flags u) \<longrightarrow> isBanned (flags u')"
  shows "heap_le s (store_user s r u')" and "um_inv (store_user s r u')"
proof -
  show "heap_le s (store_user s r u')"
    by (rule heap_leI) (use assms in auto)
  show "um_inv (store_user s r u')"
  proof (rule um_invI)
    fix r' v
    assume h: "heap (store_user s r u') r' = Some v"
    show "0 \<le> trustScore (flags v) \<and> trustScore (flags v) \<le> 1 \<and> r' < next_ref (store_user s r u')"
    proof (cases "r' = r")
      case True
      then show ?thesis using h assms(3,4) um_invD[OF assms(1,2)] by auto
    next
      case False
      then show ?thesis using h um_invD[OF assms(1), of r' v] by simp
    qed
  qed
qed

lemma same_heap_inv:
  assumes "um_inv s" and "heap s' = heap s" and "next_ref s' = next_ref s"
  shows "um_inv s'"
proof (rule um_invI)
  fix r u
  assume "heap s' r = Some u"
  then have "heap s r = Some u" using assms(2) by simp
  from um_invD[OF assms(1) this] show "0 \<le> trustScore (flags u) \<and> trustScore (flags u) \<le> 1 \<and> r < next_ref s'"
    using assms(3) by simp
qed

lemma removeUser_heap [simp]:
  "heap (snd (removeUser s sock now)) = heap s"
  "next_ref (snd (removeUser s sock now)) = next_ref s"
  by (simp_all add: removeUser_def Let_def split: option.split prod.split)

lemma foldl_removeUser_heap [simp]:
  "heap (foldl (\<lambda>s' sock. snd (removeUser s' sock now)) s socks) = heap s"
  "next_ref (foldl (\<lambda>s' sock. snd (removeUser s' sock now)) s socks) = next_ref s"
  by (induction socks arbitrary: s) simp_all

lemma cleanupInactiveUsers_heap [simp]:
  "heap (snd (cleanupInactiveUsers s th now)) = heap s"
  "next_ref (snd (cleanupInactiveUsers s th now)) = next_ref s"
  by (simp_all add: cleanupInactiveUsers_def Let_def)

lemma sessionTimeout_heap [simp]:
  "heap (sessionTimeout s uid now) = heap s"
  "next_ref (sessionTimeout s uid now) = next_ref s"
  by (simp_all add: sessionTimeout_def split: option.split prod.split)

lemma updateActivity_user_le:
  assumes "um_inv s"
  shows "heap_le s (updateActivity_user s sock now) \<and> um_inv (updateActivity_user s sock now)"
proof (cases "lookup_user s (users s) sock")
  case None
  then show ?thesis using assms by (simp add: updateActivity_user_def heap_le_refl)
next
  case (Some p)
  obtain r u where p: "p = (r, u)" by (cases p)
  have h: "heap s r = Some u" using Some p lookup_userD by blast
  show ?thesis using Some p store_le[OF assms h, of "u\<lparr> u_lastActivity := now \<rparr>"]
      um_invD[OF assms h]
    by (simp add: updateActivity_user_def)
qed


lemma setCurrentChat_le:
  assumes "um_inv s"
  shows "heap_le s (setCurrentChat s sock cid now) \<and> um_inv (setCurrentChat s sock cid now)"
proof (cases "lookup_user s (users s) sock")
  case None
  then show ?thesis using assms by (simp add: setCurrentChat_def heap_le_refl)
next
  case (Some p)
  obtain r u where p: "p = (r, u)" by (cases p)
  have h: "heap s r = Some u" using Some p lookup_userD by blast
  show ?thesis
    using Some p store_le[OF assms h, of "u\<lparr> currentChatId := Some cid, u_lastActivity := now \<rparr>"] um_invD[OF assms h]
    by (simp add: setCurrentChat_def Let_def)
qed

lemma clearCurrentChat_le:
  assumes "um_inv s"
  shows "heap_le s (clearCurrentChat s sock now) \<and> um_inv (clearCurrentChat s sock now)"
proof (cases "lookup_user s (users s) sock")
  case None
  then show ?thesis using assms by (simp add: clearCurrentChat_def heap_le_refl)
next
  case (Some p)
  obtain r u where p: "p = (r, u)" by (cases p)
  have h: "heap s r = Some u" using Some p lookup_userD by blast
  show ?thesis
    using Some p store_le[OF assms h, of "u\<lparr> currentChatId := None, stats := (stats u)\<lparr> st_totalChats := st_totalChats (stats u) + 1 \<rparr>, u_lastActivity := now \<rparr>"] um_invD[OF assms h]
    by (simp add: clearCurrentChat_def Let_def)
qed

lemma banUser_le:
  assumes "um_inv s"
  shows "heap_le s (banUser s uid reason now) \<and> um_inv (banUser s uid reason now)"
proof (cases "lookup_user s (usersByUserId s) uid")
  case None
  then show ?thesis using assms by (simp add: banUser_def heap_le_refl)
next
  case (Some p)
  obtain r u where p: "p = (r, u)" by (cases p)
  have h: "heap s r = Some u" using Some p lookup_userD by blast
  show ?thesis
    using Some p store_le[OF assms h, of "u\<lparr> flags := (flags u)\<lparr> isBanned := True \<rparr>,
                banInfo := Some \<lparr> ban_reason = reason, ban_timestamp = now,
                                  bannedBy = ''system'' \<rparr> \<rparr>"] um_invD[OF assms h]
    by (simp add: banUser_def Let_def)
qed

lemma updateStats_le:
  assumes "um_inv s"
  shows "heap_le s (updateStats s sock upd now) \<and> um_inv (updateStats s sock upd now)"
proof (cases "lookup_user s (users s) sock")
  case None
  then show ?thesis using assms by (simp add: updateStats_def heap_le_refl)
next
  case (Some p)
  obtain r u where p: "p = (r, u)" by (cases p)
  have h: "heap s r = Some u" using Some p lookup_userD by blast
  obtain st' where e: "updateStats s sock upd now =
      store_user s r (u\<lparr> stats := st', u_lastActivity := now \<rparr>)"
    using Some p by (simp add: updateStats_def Let_def)
  show ?thesis unfolding e
    using store_le[OF assms h, of "u\<lparr> stats := st', u_lastActivity := now \<rparr>"]
      um_invD[OF assms h] by simp
qed

lemma updateProfile_le:
  assumes "um_inv s"
  shows "heap_le s (user_step s (UpdateProfile sock p now)) \<and>
         um_inv (user_step s (UpdateProfile sock p now))"
proof (cases "updateProfile s sock p now")
  case (Inl e)
  then show ?thesis using assms by (simp add: heap_le_refl)
next
  case (Inr res)
  obtain b s' where res: "res = (b, s')" by (cases res)
  show ?thesis
  proof (cases "lookup_user s (users s) sock")
    case None
    then have "s' = s" using Inr res by (simp add: updateProfile_def)
    then show ?thesis using Inr res assms by (simp add: heap_le_refl)
  next
    case (Some q)
    obtain r u where q: "q = (r, u)" by (cases q)
    have h: "heap s r = Some u" using Some q lookup_userD by blast
    obtain pr pf where e: "s' = store_user s r
        (u\<lparr> u_profile := pr, u_preferences := pf, u_lastActivity := now \<rparr>)"
      using Inr res Some q
      by (auto simp: updateProfile_def Let_def split: sum.splits)
    show ?thesis using Inr res unfolding e
      using store_le[OF assms h,
          of "u\<lparr> u_profile := pr, u_preferences := pf, u_lastActivity := now \<rparr>"]
        um_invD[OF assms h] by simp
  qed
qed

lemma flagUser_le:
  assumes "um_inv s"
  shows "heap_le s (flagUser s uid vt details now) \<and> um_inv (flagUser s uid vt details now)"
proof (cases "lookup_user s (usersByUserId s) uid")
  case None
  then show ?thesis using assms by (simp add: flagUser_def heap_le_refl)
next
  case (Some p)
  obtain r u where p: "p = (r, u)" by (cases p)
  have h: "heap s r = Some u" using Some p lookup_userD by blast
  define t' where "t' = max 0 (double_sub (trustScore (flags u)) (round_double (1 / 10)))"
  define u2 where "u2 = u\<lparr> stats := (stats u)\<lparr> st_violations := st_violations (stats u) + 1 \<rparr>,
                      flags := (flags u)\<lparr> trustScore := t' \<rparr>,
                      violations :=
                         Some ((case violations u of None \<Rightarrow> [] | Some vs \<Rightarrow> vs) @
                               [\<lparr> v_type = vt, v_timestamp = now,
                                  v_details = (if details = JUndefined then JObj [] else details),
                                  v_severity = getViolationSeverity vt \<rparr>]) \<rparr>"
  define s1 where "s1 = store_user s r u2"
  have t: "0 \<le> trustScore (flags u)" "trustScore (flags u) \<le> 1"
    using um_invD[OF assms h] by simp_all
  have t2: "0 \<le> t'" "t' \<le> trustScore (flags u)"
    unfolding t'_def using flag_score_bounds(1,2)[OF t] by simp_all
  have s1: "heap_le s s1" "um_inv s1"
    unfolding s1_def using store_le[OF assms h, of u2] t2 by (simp_all add: u2_def)
  have e: "flagUser s uid vt details now =
      (if st_violations (stats u2) \<ge> 5 \<or> trustScore (flags u2) \<le> round_double (3 / 10)
       then banUser s1 uid ''Automated ban due to multiple violations'' now else s1)"
    using Some p by (simp add: flagUser_def Let_def s1_def u2_def t'_def)
  show ?thesis
    unfolding e using s1 banUser_le[OF s1(2)] heap_le_trans[OF s1(1)] by auto
qed

lemma removeUser_le:
  "um_inv s \<Longrightarrow> heap_le s (snd (removeUser s sock now)) \<and> um_inv (snd (removeUser s sock now))"
  by (simp add: heap_le_same same_heap_inv)

lemma cleanupInactiveUsers_le:
  "um_inv s \<Longrightarrow> heap_le s (snd (cleanupInactiveUsers s th now)) \<and>
     um_inv (snd (cleanupInactiveUsers s th now))"
  by (simp add: heap_le_same same_heap_inv)

lemma sessionTimeout_le:
  "um_inv s \<Longrightarrow> heap_le s (sessionTimeout s uid now) \<and> um_inv (sessionTimeout s uid now)"
  by (simp add: heap_le_same same_heap_inv)

lemma createUser_result:
  assumes "createUser s sock p uid now = Inr (u, s')"
  shows "heap s' = (heap s)(next_ref s := Some u)" and "next_ref s' = next_ref s + 1"
    and "trustScore (flags u) = 1" and "\<not> isBanned (flags u)"
    and "user_id u = uid" and "socketId u = sock"
    and "usersByUserId s' = map_set (usersByUserId s) uid (next_ref s)"
    and "users s' = map_set (users s) sock (next_ref s)"
    and "st_violations (stats u) = 0"
  using assms
  by (auto simp: createUser_def Let_def split: sum.splits)

lemma createUser_le:
  assumes "um_inv s"
  shows "heap_le s (user_step s (CreateUser sock p uid now)) \<and>
         um_inv (user_step s (CreateUser sock p uid now))"
proof (cases "createUser s sock p uid now")
  case (Inl e)
  then show ?thesis using assms by (simp add: heap_le_refl)
next
  case (Inr res)
  obtain u s' where res: "res = (u, s')" by (cases res)
  note c = createUser_result[OF Inr[unfolded res]]
  have st: "user_step s (CreateUser sock p uid now) = s'" using Inr res by simp
  have "heap_le s s'"
  proof (rule heap_leI)
    fix r v assume v: "heap s r = Some v"
    then have "r \<noteq> next_ref s" using um_invD[OF assms v] by simp
    then show "\<exists>u'. heap s' r = Some u' \<and> trustScore (flags u') \<le> trustScore (flags v) \<and>
           (isBanned (flags v) \<longrightarrow> isBanned (flags u'))" using v c(1) by simp
  qed
  moreover have "um_inv s'"
  proof (rule um_invI)
    fix r v assume v: "heap s' r = Some v"
    show "0 \<le> trustScore (flags v) \<and> trustScore (flags v) \<le> 1 \<and> r < next_ref s'"
    proof (cases "r = next_ref s")
      case True
      then show ?thesis using v c(1,2,3) by simp
    next
      case False
      then have "heap s r = Some v" using v c(1) by simp
      from um_invD[OF assms this] show ?thesis using c(2) by simp
    qed
  qed
  ultimately show ?thesis unfolding st by simp
qed

lemma user_step_le: "um_inv s \<Longrightarrow> heap_le s (user_step s op) \<and> um_inv (user_step s op)"
proof (cases op)
  case (CreateUser x11 x12 x13 x14)
  assume "um_inv s" then show ?thesis unfolding CreateUser by (rule createUser_le)
next
  case (UpdateProfile x41 x42 x43)
  assume "um_inv s" then show ?thesis unfolding UpdateProfile by (rule updateProfile_le)
qed (simp_all add: removeUser_le updateActivity_user_le setCurrentChat_le clearCurrentChat_le
      updateStats_le flagUser_le banUser_le cleanupInactiveUsers_le sessionTimeout_le)

lemma user_foldl_le: "um_inv s \<Longrightarrow> heap_le s (foldl user_step s ops) \<and> um_inv (foldl user_step s ops)"
proof (induction ops arbitrary: s)
  case Nil
  then show ?case by (simp add: heap_le_refl)
next
  case (Cons op ops)
  from user_step_le[OF Cons.prems, of op] have
    a: "heap_le s (user_step s op)" and b: "um_inv (user_step s op)" by simp_all
  from Cons.IH[OF b] heap_le_trans[OF a] show ?case by simp
qed

lemma um_inv_init: "um_inv user_manager_init"
  by (simp add: um_inv_def user_manager_init_def)

lemma um_inv_run: "um_inv (user_run ops)"
  using user_foldl_le[OF um_inv_init] by (simp add: user_run_def)

lemma user_run_append: "user_run (ops @ ops') = foldl user_step (user_run ops) ops'"
  by (simp add: user_run_def)



lemma createUser_empty:
  "\<exists>u s'. createUser s sock (JObj []) uid now = Inr (u, s') \<and> st_violations (stats u) = 0
      \<and> violations u = None \<and> banInfo u = None"
  by (simp add: createUser_def sanitizeProfile_def extractPreferences_def Let_def)

lemma createUser_lookup:
  assumes "createUser s sock p uid now = Inr (u, s')"
  shows "lookup_user s' (usersByUserId s') uid = Some (next_ref s, u)"
  using createUser_result[OF assms] by (simp add: lookup_user_def map_get_def map_set_def update_conv')








text \<open>
  Claim C5 says the profile normalizer never throws. On the profile \<open>{gender: 42}\<close> the
  gender branch calls \<open>toLowerCase\<close> on a number: \<open>sanitizeProfile\<close> throws a
  TypeError, and so does \<open>createUser\<close>.
\<close>

theorem sanitizeProfile_throws:
  "sanitizeProfile (JObj [(''gender'', JNum 42)]) = Inl TypeError \<and>
   createUser user_manager_init ''s1'' (JObj [(''gender'', JNum 42)]) ''u1'' 0 = Inl TypeError"
  by (simp add: sanitizeProfile_def createUser_def)

lemma removeUser_ids:
  "map_get (usersByUserId (snd (removeUser s sock now))) uid = map_get (usersByUserId s) uid \<or>
   map_get (usersByUserId (snd (removeUser s sock now))) uid = None"
  by (simp add: removeUser_def Let_def split: option.split prod.split)

lemma foldl_removeUser_ids:
  "map_get (usersByUserId (foldl (\<lambda>s' sock. snd (removeUser s' sock now)) s socks)) uid
     = map_get (usersByUserId s) uid \<or>
   map_get (usersByUserId (foldl (\<lambda>s' sock. snd (removeUser s' sock now)) s socks)) uid = None"
proof (induction socks arbitrary: s)
  case Nil
  then show ?case by simp
next
  case (Cons x xs)
  from Cons.IH[of "snd (removeUser s x now)"] removeUser_ids[of s x now uid]
  show ?case by auto
qed

lemma user_step_ids:
  assumes "\<not> draws_id op uid"
  shows "map_get (usersByUserId (user_step s op)) uid = map_get (usersByUserId s) uid \<or>
         map_get (usersByUserId (user_step s op)) uid = None"
proof (cases op)
  case (CreateUser sock p uid' now)
  then have ne: "uid' \<noteq> uid" using assms by simp
  show ?thesis
  proof (cases "createUser s sock p uid' now")
    case (Inl e)
    then show ?thesis using CreateUser by simp
  next
    case (Inr res)
    obtain u s' where res: "res = (u, s')" by (cases res)
    from createUser_result(7)[OF Inr[unfolded res]] ne show ?thesis
      using CreateUser Inr res by simp
  qed
next
  case (RemoveUser sock now)
  then show ?thesis using removeUser_ids by simp
next
  case (UpdateActivityUser sock now)
  then show ?thesis by (simp add: updateActivity_user_def split: option.split prod.split)
next
  case (UpdateProfile sock p now)
  then show ?thesis
    by (auto simp: updateProfile_def Let_def split: option.splits prod.splits sum.splits)
next
  case (SetCurrentChat sock cid now)
  then show ?thesis by (simp add: setCurrentChat_def split: option.split prod.split)
next
  case (ClearCurrentChat sock now)
  then show ?thesis by (simp add: clearCurrentChat_def split: option.split prod.split)
next
  case (UpdateStats sock upd now)
  then show ?thesis by (simp add: updateStats_def Let_def split: option.split prod.split)
next
  case (FlagUser uid' vt d now)
  then show ?thesis
    by (simp add: flagUser_def banUser_def Let_def split: option.split prod.split)
next
  case (BanUser uid' reason now)
  then show ?thesis by (simp add: banUser_def split: option.split prod.split)
next
  case (CleanupInactiveUsers th now)
  then show ?thesis using foldl_removeUser_ids by (simp add: cleanupInactiveUsers_def Let_def)
next
  case (SessionTimeout uid' now)
  then show ?thesis using removeUser_ids
    by (simp add: sessionTimeout_def split: option.split prod.split)
qed

text \<open>
  Claim C9. In a UserManager reached by any sequence of operations, the trust score
  of every user object is, after any further operations, at most what it was; and
  \<open>createUser\<close> allocates a new object whose trust score is 1.
\<close>

theorem trustScore_non_increasing:
  "(heap (user_run ops) r = Some u \<longrightarrow>
      (\<exists>u'. heap (user_run (ops @ ops')) r = Some u' \<and>
            trustScore (flags u') \<le> trustScore (flags u)))
   \<and> (createUser (user_run ops) sock p uid now = Inr (usr, s') \<longrightarrow>
        trustScore (flags usr) = 1 \<and> heap s' (next_ref (user_run ops)) = Some usr \<and>
        heap (user_run ops) (next_ref (user_run ops)) = None)"
proof -
  have le: "heap_le (user_run ops) (user_run (ops @ ops'))"
    unfolding user_run_append using user_foldl_le[OF um_inv_run] by simp
  have a: "\<exists>u'. heap (user_run (ops @ ops')) r = Some u' \<and>
            trustScore (flags u') \<le> trustScore (flags u)"
    if "heap (user_run ops) r = Some u"
    using heap_leD[OF le that] by blast
  have b: "trustScore (flags usr) = 1 \<and> heap s' (next_ref (user_run ops)) = Some usr \<and>
        heap (user_run ops) (next_ref (user_run ops)) = None"
    if c: "createUser (user_run ops) sock p uid now = Inr (usr, s')"
  proof -
    have "heap (user_run ops) (next_ref (user_run ops)) = None"
    proof (cases "heap (user_run ops) (next_ref (user_run ops))")
      case None then show ?thesis .
    next
      case (Some v)
      from um_invD[OF um_inv_run Some] show ?thesis by simp
    qed
    then show ?thesis using createUser_result[OF c] by simp
  qed
  from a b show ?thesis by blast
qed

text \<open>
  Claim C10. Once \<open>isUserBanned\<close> holds of a user identifier, it holds after any
  further operations for as long as the identifier is registered to the same session.
  An operation other than a \<open>createUser\<close> that draws the identifier anew leaves the
  identifier with its session or removes it; and \<open>banUser\<close> on a registered user makes
  \<open>isUserBanned\<close> hold.
\<close>

theorem ban_is_permanent:
  "(isUserBanned (user_run ops) userId \<and>
    map_get (usersByUserId (user_run (ops @ ops'))) userId =
      map_get (usersByUserId (user_run ops)) userId
      \<longrightarrow> isUserBanned (user_run (ops @ ops')) userId)
   \<and> (\<not> draws_id op userId \<longrightarrow>
        map_get (usersByUserId (user_step (user_run ops) op)) userId =
          map_get (usersByUserId (user_run ops)) userId \<or>
        map_get (usersByUserId (user_step (user_run ops) op)) userId = None)
   \<and> (lookup_user (user_run ops) (usersByUserId (user_run ops)) userId \<noteq> None \<longrightarrow>
        isUserBanned (banUser (user_run ops) userId reason now) userId)"
proof -
  let ?s = "user_run ops" and ?s' = "user_run (ops @ ops')"
  have le: "heap_le ?s ?s'"
    unfolding user_run_append using user_foldl_le[OF um_inv_run] by simp
  have a: "isUserBanned ?s' userId"
    if b: "isUserBanned ?s userId"
      and m: "map_get (usersByUserId ?s') userId = map_get (usersByUserId ?s) userId"
  proof -
    from b obtain r u where l: "lookup_user ?s (usersByUserId ?s) userId = Some (r, u)"
      and bu: "isBanned (flags u)"
      by (auto simp: isUserBanned_def split: option.splits)
    from lookup_userD[OF l] have h: "heap ?s r = Some u"
      and g: "map_get (usersByUserId ?s) userId = Some r" by simp_all
    from heap_leD[OF le h] bu obtain u' where
      u': "heap ?s' r = Some u'" "isBanned (flags u')" by blast
    have "lookup_user ?s' (usersByUserId ?s') userId = Some (r, u')"
      using m g u'(1) by (simp add: lookup_user_def)
    then show ?thesis using u'(2) by (simp add: isUserBanned_def)
  qed
  have c: "isUserBanned (banUser ?s userId reason now) userId"
    if "lookup_user ?s (usersByUserId ?s) userId \<noteq> None"
  proof -
    from that obtain r u where l: "lookup_user ?s (usersByUserId ?s) userId = Some (r, u)"
      by (cases "lookup_user ?s (usersByUserId ?s) userId") auto
    from lookup_userD[OF l] have g: "map_get (usersByUserId ?s) userId = Some r" by simp
    show ?thesis using l g
      by (simp add: banUser_def isUserBanned_def lookup_user_def)
  qed
  from a c user_step_ids[of op userId ?s] show ?thesis by blast
qed

lemma store_ops_maps [simp]:
  "usersByUserId (banUser s uid reason now) = usersByUserId s"
  "usersByUserId (flagUser s uid vt d now) = usersByUserId s"
  "usersByUserId (updateActivity_user s sock now) = usersByUserId s"
  by (simp_all add: banUser_def flagUser_def updateActivity_user_def Let_def
        split: option.split prod.split)

text \<open>The theorem of C9 at a new user who is flagged once, and at a second registration.\<close>

theorem trustScore_non_increasing_witness:
  "\<exists>u u' usr s'.
     heap (user_run [CreateUser ''s1'' (JObj []) ''u1'' 0]) 0 = Some u \<and>
     heap (user_run ([CreateUser ''s1'' (JObj []) ''u1'' 0] @
                     [FlagUser ''u1'' ''spam'' JUndefined 5])) 0 = Some u' \<and>
     trustScore (flags u') \<le> trustScore (flags u) \<and>
     createUser (user_run [CreateUser ''s1'' (JObj []) ''u1'' 0]) ''s2'' (JObj []) ''u2'' 1
       = Inr (usr, s') \<and>
     trustScore (flags usr) = 1"
proof -
  define ops where "ops = [CreateUser ''s1'' (JObj []) ''u1'' 0]"
  define ops' where "ops' = [FlagUser ''u1'' ''spam'' JUndefined 5]"
  obtain u s1 where c: "createUser user_manager_init ''s1'' (JObj []) ''u1'' 0 = Inr (u, s1)"
    using createUser_empty by blast
  have run: "user_run ops = s1" using c by (simp add: user_run_def ops_def)
  have h: "heap (user_run ops) 0 = Some u"
    unfolding run using createUser_result(1)[OF c] by (simp add: user_manager_init_def)
  obtain usr s' where c2: "createUser (user_run ops) ''s2'' (JObj []) ''u2'' 1 = Inr (usr, s')"
    using createUser_empty by blast
  note t = trustScore_non_increasing[of ops 0 u ops' "''s2''" "JObj []" "''u2''" 1 usr s']
  from t h obtain u' where u': "heap (user_run (ops @ ops')) 0 = Some u'"
    "trustScore (flags u') \<le> trustScore (flags u)" by blast
  from t c2 have "trustScore (flags usr) = 1" by blast
  with h u' c2 show ?thesis unfolding ops_def ops'_def
    by (intro exI[of _ u] exI[of _ u'] exI[of _ usr] exI[of _ s'] conjI)
qed

text \<open>
  The theorem of C10 at a user who is banned, then flagged and touched; removing the
  session unregisters the identifier.
\<close>

theorem ban_is_permanent_witness:
  "isUserBanned (user_run [CreateUser ''s1'' (JObj []) ''u1'' 0, BanUser ''u1'' ''manual'' 3])
     ''u1'' \<and>
   isUserBanned (user_run ([CreateUser ''s1'' (JObj []) ''u1'' 0, BanUser ''u1'' ''manual'' 3] @
                           [FlagUser ''u1'' ''spam'' JUndefined 5, UpdateActivityUser ''s1'' 6]))
     ''u1'' \<and>
   map_get (usersByUserId (user_step
       (user_run [CreateUser ''s1'' (JObj []) ''u1'' 0, BanUser ''u1'' ''manual'' 3])
       (RemoveUser ''s1'' 9))) ''u1'' = None"
proof -
  define o1 where "o1 = CreateUser ''s1'' (JObj []) ''u1'' 0"
  define o2 where "o2 = BanUser ''u1'' ''manual'' 3"
  define ops' where "ops' = [FlagUser ''u1'' ''spam'' JUndefined 5, UpdateActivityUser ''s1'' 6]"
  define uid where "uid = ''u1''"
  obtain u s1 where c: "createUser user_manager_init ''s1'' (JObj []) ''u1'' 0 = Inr (u, s1)"
    using createUser_empty by blast
  have run1: "user_run [o1] = s1" using c by (simp add: user_run_def o1_def)
  have l: "lookup_user (user_run [o1]) (usersByUserId (user_run [o1])) uid \<noteq> None"
    unfolding run1 uid_def using createUser_lookup[OF c] by simp
  have run2: "user_run [o1, o2] = banUser (user_run [o1]) uid ''manual'' 3"
    by (simp add: user_run_def o2_def uid_def)
  have b: "isUserBanned (user_run [o1, o2]) uid"
    unfolding run2 using ban_is_permanent[of "[o1]" uid "[]" o2 "''manual''" 3] l by blast
  have m: "map_get (usersByUserId (user_run ([o1, o2] @ ops'))) uid =
           map_get (usersByUserId (user_run [o1, o2])) uid"
    unfolding user_run_append ops'_def by simp
  have nd: "\<not> draws_id (RemoveUser ''s1'' 9) uid" by simp
  have u1: "user_id u = ''u1''" "socketId u = ''s1''" using createUser_result[OF c] by simp_all
  have ls: "lookup_user (user_run [o1, o2]) (users (user_run [o1, o2])) ''s1'' \<noteq> None"
    unfolding run2 run1 using createUser_result[OF c]
    by (simp add: banUser_def lookup_user_def uid_def user_manager_init_def
          split: option.split prod.split)
  have rm: "map_get (usersByUserId (user_step (user_run [o1, o2]) (RemoveUser ''s1'' 9))) uid
              = None"
  proof -
    obtain r v where lv: "lookup_user (user_run [o1, o2]) (users (user_run [o1, o2])) ''s1''
        = Some (r, v)" using ls by (cases "lookup_user (user_run [o1, o2]) (users (user_run [o1, o2])) ''s1''") auto
    have "heap (user_run [o1, o2]) r = Some v" "map_get (users (user_run [o1, o2])) ''s1'' = Some r"
      using lookup_userD[OF lv] by simp_all
    then have "user_id v = ''u1''"
      unfolding run2 run1 using createUser_result[OF c]
      by (auto simp: banUser_def lookup_user_def uid_def user_manager_init_def store_user_def
            split: option.splits prod.splits if_splits)
    then show ?thesis using lv by (simp add: removeUser_def Let_def uid_def)
  qed
  from ban_is_permanent[of "[o1, o2]" uid ops' "RemoveUser ''s1'' 9" "''manual''" 3] b m
  have "isUserBanned (user_run ([o1, o2] @ ops')) uid" by blast
  with b rm show ?thesis unfolding o1_def o2_def ops'_def uid_def by (intro conjI)
qed

section \<open>MatchingEngine: proofs\<close>

lemma gender_sym: "calculateGenderCompatibility e1 e2 = calculateGenderCompatibility e2 e1"
  by (simp add: calculateGenderCompatibility_def Let_def)

lemma age_sym: "calculateAgeCompatibility e1 e2 = calculateAgeCompatibility e2 e1"
  by (auto simp: calculateAgeCompatibility_def Let_def)

lemma location_sym: "calculateLocationCompatibility e1 e2 = calculateLocationCompatibility e2 e1"
  by (auto simp: calculateLocationCompatibility_def Let_def)

lemma trust_sym: "calculateTrustCompatibility e1 e2 = calculateTrustCompatibility e2 e1"
  by (simp add: calculateTrustCompatibility_def Let_def add.commute abs_minus_commute)

lemma length_js_set: "length (js_set xs) = card (set xs)"
  by (simp add: js_set_def length_remdups_card_conv)

lemma set_js_set [simp]: "set (js_set xs) = set xs"
  by (simp add: js_set_def)

lemma interest_sym: "calculateInterestCompatibility e1 e2 = calculateInterestCompatibility e2 e1"
proof -
  define F where "F = (\<lambda>(A::string list) (B::string list).
      if length A = 0 \<and> length B = 0 then 5 / 10
      else if length A = 0 \<or> length B = 0 then 4 / 10
      else min (real (length (js_set (filter (\<lambda>x. x \<in> set (js_set (map toLowerCase B)))
                                              (js_set (map toLowerCase A))))) /
                real (length (js_set (js_set (map toLowerCase A) @ js_set (map toLowerCase B)))) +
                min (real (length (js_set (filter (\<lambda>x. x \<in> set (js_set (map toLowerCase B)))
                                              (js_set (map toLowerCase A))))) * (1 / 10)) (3 / 10))
               (1::real))"
  have i: "length (js_set (filter (\<lambda>x. x \<in> set (js_set Y)) (js_set X))) =
           length (js_set (filter (\<lambda>x. x \<in> set (js_set X)) (js_set Y)))" for X Y :: "string list"
  proof -
    have "set (filter (\<lambda>x. x \<in> set (js_set Y)) (js_set X)) =
          set (filter (\<lambda>x. x \<in> set (js_set X)) (js_set Y))" by auto
    then show ?thesis by (simp only: length_js_set)
  qed
  have u: "length (js_set (js_set X @ js_set Y)) = length (js_set (js_set Y @ js_set X))"
    for X Y :: "string list"
    by (simp add: length_js_set Un_commute)
  have sym: "F A B = F B A" for A B
    unfolding F_def
    by (simp only: i[of "map toLowerCase A" "map toLowerCase B"]
          u[of "map toLowerCase A" "map toLowerCase B"] conj_commute disj_commute)
  have "calculateInterestCompatibility x y =
          F (case profile_keywords (u_profile (qe_user x)) of None \<Rightarrow> [] | Some ks \<Rightarrow> ks)
            (case profile_keywords (u_profile (qe_user y)) of None \<Rightarrow> [] | Some ks \<Rightarrow> ks)"
    for x y
    unfolding calculateInterestCompatibility_def Let_def F_def ..
  then show ?thesis using sym by simp
qed

text \<open>
  Claim C8. The compatibility score of two queue entries does not depend on their
  order: each of the five partial scores is symmetric, and the weighted sum adds them
  in the same order either way.
\<close>

theorem calculateCompatibility_symmetric:
  "calculateCompatibility s entry1 entry2 = calculateCompatibility s entry2 entry1"
  by (simp add: calculateCompatibility_def Let_def gender_sym[of entry1] age_sym[of entry1]
        location_sym[of entry1] interest_sym[of entry1] trust_sym[of entry1])

lemma update_absent: "map_of al k = None \<Longrightarrow> AList.update k v al = al @ [(k, v)]"
  by (induction al) (auto split: if_splits)

lemma filter_key_absent: "map_of al k = None \<Longrightarrow> filter (\<lambda>(k', e). k' = k) al = []"
  by (induction al) (auto split: if_splits)

lemma filter_key_present:
  "distinct (map fst al) \<Longrightarrow> map_of al k = Some e \<Longrightarrow>
     length (filter (\<lambda>(k', e). k' = k) al) = 1"
proof (induction al)
  case Nil
  then show ?case by simp
next
  case (Cons p al)
  obtain k' v where p: "p = (k', v)" by (cases p)
  show ?case
  proof (cases "k' = k")
    case True
    then have "k \<notin> fst ` set al" using Cons.prems(1) p by simp
    then have "map_of al k = None" by (simp add: map_of_eq_None_iff)
    then show ?thesis using True p by (simp add: filter_key_absent)
  next
    case False
    then show ?thesis using Cons p by simp
  qed
qed

lemma addToQueue_present:
  "map_get (matchingQueue s) (user_id usr) = Some e \<Longrightarrow>
     addToQueue gt0 s usr prefs uuid now = Inr (e, s)"
  by (simp add: addToQueue_def)

lemma addToQueue_repeat_present:
  "map_get (matchingQueue s) (user_id usr) = Some e \<Longrightarrow>
     addToQueue_repeat gt0 s usr calls = (replicate (length calls) (Inr e), s)"
proof (induction calls)
  case Nil
  then show ?case by simp
next
  case (Cons c calls)
  obtain prefs uuid now where c: "c = (prefs, uuid, now)" by (cases c)
  show ?case using Cons c by (simp add: addToQueue_present)
qed

lemma addToQueue_absent:
  assumes "map_get (matchingQueue s) (user_id usr) = None"
    and "addToQueue gt0 s usr prefs uuid now = Inr (e1, s1)"
  shows "queuedAt e1 = now" and "qe_userId e1 = user_id usr"
    and "matchingQueue s1 = map_set (matchingQueue s) (user_id usr) e1"
  using assms
  by (auto simp: addToQueue_def Let_def split: if_splits sum.splits)

text \<open>
  Claim C3. When the queue holds an entry for the user, \<open>addToQueue\<close> returns that
  entry and leaves the engine unchanged, whatever the preferences and however many
  times it is called; and a queue whose keys are distinct, as those of a \<open>Map\<close> are,
  holds exactly one entry for the user. The call that put the entry there stamped it
  with its own clock reading, stored it under the user's id as the only entry for
  that user, and kept the keys distinct.
\<close>

theorem addToQueue_idempotent:
  "(map_get (matchingQueue s) (user_id usr) = Some e \<longrightarrow>
      addToQueue gt0 s usr prefs uuid now = Inr (e, s) \<and>
      addToQueue_repeat gt0 s usr calls = (replicate (length calls) (Inr e), s) \<and>
      (distinct (map fst (matchingQueue s)) \<longrightarrow> queue_entries_of s (user_id usr) = 1))
   \<and> (map_get (matchingQueue s) (user_id usr) = None \<and>
       addToQueue gt0 s usr prefs uuid now = Inr (e1, s1) \<longrightarrow>
      queuedAt e1 = now \<and>
      map_get (matchingQueue s1) (user_id usr) = Some e1 \<and>
      queue_entries_of s1 (user_id usr) = 1 \<and>
      (distinct (map fst (matchingQueue s)) \<longrightarrow> distinct (map fst (matchingQueue s1))))"
proof -
  have a: "addToQueue gt0 s usr prefs uuid now = Inr (e, s) \<and>
      addToQueue_repeat gt0 s usr calls = (replicate (length calls) (Inr e), s) \<and>
      (distinct (map fst (matchingQueue s)) \<longrightarrow> queue_entries_of s (user_id usr) = 1)"
    if h: "map_get (matchingQueue s) (user_id usr) = Some e"
  proof -
    have m: "map_of (matchingQueue s) (user_id usr) = Some e" using h by (simp add: map_get_def)
    have "queue_entries_of s (user_id usr) = 1" if d: "distinct (map fst (matchingQueue s))"
      unfolding queue_entries_of_def by (rule filter_key_present[OF d m])
    then show ?thesis
      using addToQueue_present[OF h] addToQueue_repeat_present[OF h] by blast
  qed
  have b: "queuedAt e1 = now \<and>
      map_get (matchingQueue s1) (user_id usr) = Some e1 \<and>
      queue_entries_of s1 (user_id usr) = 1 \<and>
      (distinct (map fst (matchingQueue s)) \<longrightarrow> distinct (map fst (matchingQueue s1)))"
    if n: "map_get (matchingQueue s) (user_id usr) = None"
      and c: "addToQueue gt0 s usr prefs uuid now = Inr (e1, s1)"
  proof -
    note r = addToQueue_absent[OF n c]
    have m: "map_of (matchingQueue s) (user_id usr) = None" using n by (simp add: map_get_def)
    have q: "matchingQueue s1 = matchingQueue s @ [(user_id usr, e1)]"
      using r(3) update_absent[OF m] by (simp add: map_set_def)
    have "queue_entries_of s1 (user_id usr) = 1"
      by (simp add: queue_entries_of_def q filter_key_absent[OF m])
    moreover have "map_get (matchingQueue s1) (user_id usr) = Some e1"
      by (simp add: r(3))
    moreover have "distinct (map fst (matchingQueue s1))"
      if "distinct (map fst (matchingQueue s))"
      using that by (simp add: r(3) map_set_def distinct_update)
    ultimately show ?thesis using r(1) by simp
  qed
  from a b show ?thesis by blast
qed

text \<open>
  The theorem of C8 at two entries whose users differ in every attribute: the score is
  0.701 in both orders.
\<close>

theorem calculateCompatibility_symmetric_witness:
  "calculateCompatibility matching_engine_init
     \<lparr> qe_id = ''q1'', qe_userId = ''u1'',
       qe_user =
         \<lparr> user_id = ''u1'', socketId = ''s1'',
           u_profile = \<lparr> gender = Some ''male'', location = Some ''Paris, FR'',
                         age = Some ''18-25'', profile_keywords = Some [''Music'', ''chess''] \<rparr>,
           connectionTime = 0, u_lastActivity = 0, u_status = ''online'', currentChatId = None,
           u_preferences = \<lparr> preferredGender = JStr ''any'', preferredAgeRange = JStr ''any'',
                             preferredLocation = JStr ''any'', interests = JArr [] \<rparr>,
           sessionData = \<lparr> ipAddress = None, userAgent = None, country = None, city = None \<rparr>,
           stats = \<lparr> st_totalChats = 0, st_totalMessages = 0, st_averageChatDuration = 0,
                     st_violations = 0 \<rparr>,
           flags = \<lparr> isReported = False, isBanned = False, isBot = False, trustScore = 1 \<rparr>,
           violations = None, banInfo = None \<rparr>,
       qe_preferences = \<lparr> qp_chatType = JStr ''text'', qp_gender = JStr ''female'',
                          qp_age = JStr ''any'', qp_location = JStr ''any'', qp_keywords = [] \<rparr>,
       queuedAt = 10, attempts = 0, lastAttempt = None, priority = 1,
       compatibility = \<lparr> requirements = [], flexibility = 1 \<rparr> \<rparr>
     \<lparr> qe_id = ''q2'', qe_userId = ''u2'',
       qe_user =
         \<lparr> user_id = ''u2'', socketId = ''s2'',
           u_profile = \<lparr> gender = Some ''female'', location = Some ''paris'',
                         age = Some ''26-35'', profile_keywords = Some [''music''] \<rparr>,
           connectionTime = 0, u_lastActivity = 0, u_status = ''online'', currentChatId = None,
           u_preferences = \<lparr> preferredGender = JStr ''any'', preferredAgeRange = JStr ''any'',
                             preferredLocation = JStr ''any'', interests = JArr [] \<rparr>,
           sessionData = \<lparr> ipAddress = None, userAgent = None, country = None, city = None \<rparr>,
           stats = \<lparr> st_totalChats = 0, st_totalMessages = 0, st_averageChatDuration = 0,
                     st_violations = 0 \<rparr>,
           flags = \<lparr> isReported = False, isBanned = False, isBot = False,
                     trustScore = 8 / 10 \<rparr>,
           violations = None, banInfo = None \<rparr>,
       qe_preferences = \<lparr> qp_chatType = JStr ''text'', qp_gender = JStr ''other'',
                          qp_age = JStr ''18-25'', qp_location = JStr ''any'', qp_keywords = [] \<rparr>,
       queuedAt = 20, attempts = 0, lastAttempt = None, priority = 1,
       compatibility = \<lparr> requirements = [], flexibility = 1 \<rparr> \<rparr>
   = 701 / 1000
   \<and>
   calculateCompatibility matching_engine_init
     \<lparr> qe_id = ''q2'', qe_userId = ''u2'',
       qe_user =
         \<lparr> user_id = ''u2'', socketId = ''s2'',
           u_profile = \<lparr> gender = Some ''female'', location = Some ''paris'',
                         age = Some ''26-35'', profile_keywords = Some [''music''] \<rparr>,
           connectionTime = 0, u_lastActivity = 0, u_status = ''online'', currentChatId = None,
           u_preferences = \<lparr> preferredGender = JStr ''any'', preferredAgeRange = JStr ''any'',
                             preferredLocation = JStr ''any'', interests = JArr [] \<rparr>,
           sessionData = \<lparr> ipAddress = None, userAgent = None, country = None, city = None \<rparr>,
           stats = \<lparr> st_totalChats = 0, st_totalMessages = 0, st_averageChatDuration = 0,
                     st_violations = 0 \<rparr>,
           flags = \<lparr> isReported = False, isBanned = False, isBot = False,
                     trustScore = 8 / 10 \<rparr>,
           violations = None, banInfo = None \<rparr>,
       qe_preferences = \<lparr> qp_chatType = JStr ''text'', qp_gender = JStr ''other'',
                          qp_age = JStr ''18-25'', qp_location = JStr ''any'', qp_keywords = [] \<rparr>,
       queuedAt = 20, attempts = 0, lastAttempt = None, priority = 1,
       compatibility = \<lparr> requirements = [], flexibility = 1 \<rparr> \<rparr>
     \<lparr> qe_id = ''q1'', qe_userId = ''u1'',
       qe_user =
         \<lparr> user_id = ''u1'', socketId = ''s1'',
           u_profile = \<lparr> gender = Some ''male'', location = Some ''Paris, FR'',
                         age = Some ''18-25'', profile_keywords = Some [''Music'', ''chess''] \<rparr>,
           connectionTime = 0, u_lastActivity = 0, u_status = ''online'', currentChatId = None,
           u_preferences = \<lparr> preferredGender = JStr ''any'', preferredAgeRange = JStr ''any'',
                             preferredLocation = JStr ''any'', interests = JArr [] \<rparr>,
           sessionData = \<lparr> ipAddress = None, userAgent = None, country = None, city = None \<rparr>,
           stats = \<lparr> st_totalChats = 0, st_totalMessages = 0, st_averageChatDuration = 0,
                     st_violations = 0 \<rparr>,
           flags = \<lparr> isReported = False, isBanned = False, isBot = False, trustScore = 1 \<rparr>,
           violations = None, banInfo = None \<rparr>,
       qe_preferences = \<lparr> qp_chatType = JStr ''text'', qp_gender = JStr ''female'',
                          qp_age = JStr ''any'', qp_location = JStr ''any'', qp_keywords = [] \<rparr>,
       queuedAt = 10, attempts = 0, lastAttempt = None, priority = 1,
       compatibility = \<lparr> requirements = [], flexibility = 1 \<rparr> \<rparr>
   = 701 / 1000"
  (is "?c ?e1 ?e2 = ?v \<and> ?c ?e2 ?e1 = ?v")
proof -
  have v: "?c ?e1 ?e2 = ?v" by code_simp
  have "?c ?e2 ?e1 = ?c ?e1 ?e2" by (rule calculateCompatibility_symmetric)
  with v show ?thesis by (intro conjI) simp_all
qed

text \<open>
  The theorem of C3 at a first call on the empty queue followed by two more calls with
  other preferences, one of them \<open>null\<close>.
\<close>

theorem addToQueue_idempotent_witness:
  "\<exists>e1 s1.
     addToQueue (\<lambda>v. Inr (case v of JNum n \<Rightarrow> 0 < n | _ \<Rightarrow> False)) matching_engine_init
         \<lparr> user_id = ''u1'', socketId = ''s1'',
           u_profile = \<lparr> gender = Some ''male'', location = None, age = None,
                         profile_keywords = None \<rparr>,
           connectionTime = 0, u_lastActivity = 0, u_status = ''online'', currentChatId = None,
           u_preferences = \<lparr> preferredGender = JStr ''any'', preferredAgeRange = JStr ''any'',
                             preferredLocation = JStr ''any'', interests = JArr [] \<rparr>,
           sessionData = \<lparr> ipAddress = None, userAgent = None, country = None, city = None \<rparr>,
           stats = \<lparr> st_totalChats = 0, st_totalMessages = 0, st_averageChatDuration = 0,
                     st_violations = 0 \<rparr>,
           flags = \<lparr> isReported = False, isBanned = False, isBot = False, trustScore = 1 \<rparr>,
           violations = None, banInfo = None \<rparr>
         (JObj [(''gender'', JStr ''female'')]) ''q1'' 10 = Inr (e1, s1) \<and>
     queuedAt e1 = 10 \<and>
     queue_entries_of s1 ''u1'' = 1 \<and>
     addToQueue_repeat (\<lambda>v. Inr (case v of JNum n \<Rightarrow> 0 < n | _ \<Rightarrow> False)) s1
         \<lparr> user_id = ''u1'', socketId = ''s1'',
           u_profile = \<lparr> gender = Some ''male'', location = None, age = None,
                         profile_keywords = None \<rparr>,
           connectionTime = 0, u_lastActivity = 0, u_status = ''online'', currentChatId = None,
           u_preferences = \<lparr> preferredGender = JStr ''any'', preferredAgeRange = JStr ''any'',
                             preferredLocation = JStr ''any'', interests = JArr [] \<rparr>,
           sessionData = \<lparr> ipAddress = None, userAgent = None, country = None, city = None \<rparr>,
           stats = \<lparr> st_totalChats = 0, st_totalMessages = 0, st_averageChatDuration = 0,
                     st_violations = 0 \<rparr>,
           flags = \<lparr> isReported = False, isBanned = False, isBot = False, trustScore = 1 \<rparr>,
           violations = None, banInfo = None \<rparr>
         [(JNull, ''q2'', 50), (JObj [(''gender'', JStr ''any'')], ''q3'', 60)]
       = ([Inr e1, Inr e1], s1)"
  (is "\<exists>e1 s1. addToQueue ?G ?s0 ?U ?P ''q1'' 10 = Inr (e1, s1) \<and> _ \<and> _ \<and>
        addToQueue_repeat ?G s1 ?U ?calls = _")
proof -
  have uid: "user_id ?U = ''u1''" by simp
  have n: "map_get (matchingQueue ?s0) (user_id ?U) = None"
    by (simp add: matching_engine_init_def map_get_Nil)
  have "\<exists>e1 s1. addToQueue ?G ?s0 ?U ?P ''q1'' 10 = Inr (e1, s1)"
    by (simp add: addToQueue_def sanitizePreferences_def extractRequirements_def
          calculateFlexibility_def matching_engine_init_def map_get_Nil Let_def)
  then obtain e1 s1 where c: "addToQueue ?G ?s0 ?U ?P ''q1'' 10 = Inr (e1, s1)" by blast
  have d0: "distinct (map fst (matchingQueue ?s0))" by (simp add: matching_engine_init_def)
  from addToQueue_idempotent[of ?s0 ?U e1 ?G ?P "''q1''" 10 "[]" e1 s1] n c d0
  have first: "queuedAt e1 = 10" "map_get (matchingQueue s1) (user_id ?U) = Some e1"
    "distinct (map fst (matchingQueue s1))" by blast+
  from addToQueue_idempotent[of s1 ?U e1 ?G JNull "''q2''" 50 ?calls e1 s1] first(2,3)
  have again: "addToQueue_repeat ?G s1 ?U ?calls = (replicate (length ?calls) (Inr e1), s1)"
    "queue_entries_of s1 (user_id ?U) = 1" by blast+
  from again(1) have rep: "addToQueue_repeat ?G s1 ?U ?calls = ([Inr e1, Inr e1], s1)" by simp
  from c first(1) again(2)[unfolded uid] rep show ?thesis
    by (intro exI[of _ e1] exI[of _ s1] conjI)
qed

end
